theory Spec2Isabelle
  imports Complex_Main "HOL-Library.AList"
begin

section \<open>Python values, errors and containers\<close>

text \<open>
  The metadata and settings documents are parsed YAML: nested mappings, sequences and
  scalars. A mapping is an association list in insertion order, as a Python dict keeps
  it; \<open>AList.update\<close> overwrites an existing key in place and appends a new one, which
  is what \<^verbatim>\<open>d[k] = v\<close> does. Values are compared structurally: YAML floats, and
  Python's identification of \<^verbatim>\<open>True\<close> with \<^verbatim>\<open>1\<close> and of \<^verbatim>\<open>False\<close> with
  \<^verbatim>\<open>0\<close> in comparisons and as dict keys, are not modelled.
\<close>

datatype pyval =
    PNone
  | PBool bool
  | PInt int
  | PStr string
  | PList "pyval list"
  | PDict "(pyval \<times> pyval) list"

text \<open>
  The payload of a \<^verbatim>\<open>ValueError\<close> is the message; each constructor stands for one
  message template of the source (or of pandas) and carries exactly the values that the
  template interpolates.
\<close>

datatype message =
    TableNotAvailable pyval pyval
  | ColumnNotFound string
  | InvalidColumnsMetadata string pyval
  | InvalidColumnMetadata string
  | InvalidMissingTreatment
  | UnableToParse string nat
  | IntegerOutOfRange nat
  | InvalidLiteral string
  | CategoriesNotUnique
  | CategoriesNull

datatype error =
    KeyError pyval
  | KeyErrorPath "pyval list"
  | TypeError
  | IndexError
  | AttributeError
  | OverflowError
  | FileNotFoundError
  | ValueError message

definition ebind :: "error + 'a \<Rightarrow> ('a \<Rightarrow> error + 'b) \<Rightarrow> error + 'b" where
  "ebind m f = (case m of Inl e \<Rightarrow> Inl e | Inr x \<Rightarrow> f x)"

fun hashable :: "pyval \<Rightarrow> bool" where
  "hashable (PList xs) = False"
| "hashable (PDict d) = False"
| "hashable v = True"

fun starts_with :: "string \<Rightarrow> string \<Rightarrow> bool" where
  "starts_with [] s = True"
| "starts_with (p # ps) [] = False"
| "starts_with (p # ps) (c # cs) = (p = c \<and> starts_with ps cs)"

fun contains_str :: "string \<Rightarrow> string \<Rightarrow> bool" where
  "contains_str p [] = (p = [])"
| "contains_str p (c # cs) = (starts_with p (c # cs) \<or> contains_str p cs)"

text \<open>
  The position that a Python index denotes in a sequence of \<open>n\<close> items: indices from
  \<open>- n\<close> to \<open>-1\<close> count from the end, and any other index outside \<open>0\<close> to
  \<open>n - 1\<close> is an \<^verbatim>\<open>IndexError\<close>.
\<close>

definition position :: "nat \<Rightarrow> int \<Rightarrow> nat option" where
  "position n i =
     (if 0 \<le> i \<and> i < int n then Some (nat i)
      else if i < 0 \<and> - int n \<le> i then Some (nat (int n + i))
      else None)"

definition py_index :: "'a list \<Rightarrow> int \<Rightarrow> error + 'a" where
  "py_index xs i = (case position (length xs) i of Some p \<Rightarrow> Inr (xs ! p) | None \<Rightarrow> Inl IndexError)"

text \<open>\<^verbatim>\<open>obj[key]\<close>, read.\<close>

fun py_getitem :: "pyval \<Rightarrow> pyval \<Rightarrow> error + pyval" where
  "py_getitem (PDict d) k =
     (if hashable k
      then (case map_of d k of Some v \<Rightarrow> Inr v | None \<Rightarrow> Inl (KeyError k))
      else Inl TypeError)"
| "py_getitem (PList xs) (PInt i) = py_index xs i"
| "py_getitem (PList xs) (PBool b) = py_index xs (if b then 1 else 0)"
| "py_getitem (PStr s) (PInt i) = map_sum id (\<lambda>c. PStr [c]) (py_index s i)"
| "py_getitem (PStr s) (PBool b) = map_sum id (\<lambda>c. PStr [c]) (py_index s (if b then 1 else 0))"
| "py_getitem v k = Inl TypeError"

text \<open>\<^verbatim>\<open>key in obj\<close>.\<close>

fun py_contains :: "pyval \<Rightarrow> pyval \<Rightarrow> error + bool" where
  "py_contains (PDict d) k = (if hashable k then Inr (k \<in> fst ` set d) else Inl TypeError)"
| "py_contains (PList xs) k = Inr (k \<in> set xs)"
| "py_contains (PStr s) (PStr p) = Inr (contains_str p s)"
| "py_contains v k = Inl TypeError"

text \<open>\<^verbatim>\<open>obj[key] = value\<close>: the object after the assignment.\<close>

definition list_assign :: "pyval list \<Rightarrow> int \<Rightarrow> pyval \<Rightarrow> error + pyval" where
  "list_assign xs i v =
     (case position (length xs) i of Some p \<Rightarrow> Inr (PList (xs[p := v])) | None \<Rightarrow> Inl IndexError)"

fun py_setitem :: "pyval \<Rightarrow> pyval \<Rightarrow> pyval \<Rightarrow> error + pyval" where
  "py_setitem (PDict d) k v =
     (if hashable k then Inr (PDict (AList.update k v d)) else Inl TypeError)"
| "py_setitem (PList xs) (PInt i) v = list_assign xs i v"
| "py_setitem (PList xs) (PBool b) v = list_assign xs (if b then 1 else 0) v"
| "py_setitem obj k v = Inl TypeError"

text \<open>\<^verbatim>\<open>for key in obj\<close>: the values the loop visits.\<close>

fun py_iter :: "pyval \<Rightarrow> error + pyval list" where
  "py_iter (PDict d) = Inr (map fst d)"
| "py_iter (PList xs) = Inr xs"
| "py_iter (PStr s) = Inr (map (\<lambda>c. PStr [c]) s)"
| "py_iter v = Inl TypeError"

fun is_dict :: "pyval \<Rightarrow> bool" where
  "is_dict (PDict d) = True"
| "is_dict v = False"

section \<open>Settings: \<^verbatim>\<open>metadata_reader.py\<close>\<close>

text \<open>
  A flattened settings document maps key paths (tuples of keys) to leaves.
  \<^verbatim>\<open>flatten_dict\<close> walks the items of the mapping in order and assigns into the
  result; a nested mapping contributes its own flattened items, prefixed by the key.
\<close>

type_synonym settings = "(pyval list \<times> pyval) list"

fun flatten_items :: "(pyval \<times> pyval) list \<Rightarrow> settings \<Rightarrow> settings" where
  "flatten_items [] acc = acc"
| "flatten_items ((k, PDict d) # rest) acc =
     flatten_items rest
       (fold (\<lambda>(sub_key, sub_value). AList.update (k # sub_key) sub_value) (flatten_items d []) acc)"
| "flatten_items ((k, v) # rest) acc = flatten_items rest (AList.update [k] v acc)"

definition flatten_dict :: "pyval \<Rightarrow> error + settings" where
  "flatten_dict dictionary =
     (case dictionary of PDict d \<Rightarrow> Inr (flatten_items d []) | _ \<Rightarrow> Inl AttributeError)"

text \<open>
  \<^verbatim>\<open>_update_settings\<close> mutates \<^verbatim>\<open>_settings\<close> in place; the model returns the
  settings after the loop.
\<close>

fun update_settings :: "settings \<Rightarrow> settings \<Rightarrow> settings" where
  "update_settings s [] = s"
| "update_settings s ((key, val) # rest) =
     update_settings (if key \<in> fst ` set s then AList.update key val s else s) rest"

text \<open>
  The YAML files on disk: what \<^verbatim>\<open>open_yaml\<close> parses at a path relative to the
  package or to the root directory, or nothing where no file exists. The override
  paths that the settings name are taken as relative paths.
\<close>

datatype location = Package | Root

type_synonym yaml_files = "location \<Rightarrow> string \<Rightarrow> pyval option"

definition open_yaml :: "yaml_files \<Rightarrow> location \<Rightarrow> string \<Rightarrow> error + pyval" where
  "open_yaml fs loc path = (case fs loc path of None \<Rightarrow> Inl FileNotFoundError | Some doc \<Rightarrow> Inr doc)"

definition settings_item :: "settings \<Rightarrow> pyval list \<Rightarrow> error + pyval" where
  "settings_item s key = (case map_of s key of None \<Rightarrow> Inl (KeyErrorPath key) | Some v \<Rightarrow> Inr v)"

definition override_settings ::
  "yaml_files \<Rightarrow> location \<Rightarrow> pyval list \<Rightarrow> settings \<Rightarrow> error + settings" where
  "override_settings fs loc key s =
     ebind (settings_item s key) (\<lambda>p.
       case p of
         PStr path \<Rightarrow>
           (case fs loc path of
              None \<Rightarrow> Inr s
            | Some doc \<Rightarrow> ebind (flatten_dict doc) (\<lambda>new_settings. Inr (update_settings s new_settings)))
       | _ \<Rightarrow> Inl TypeError)"

definition collect_settings :: "yaml_files \<Rightarrow> error + settings" where
  "collect_settings fs =
     ebind (open_yaml fs Package ''config/default_settings.yaml'') (\<lambda>doc.
     ebind (flatten_dict doc) (\<lambda>s0.
     ebind (override_settings fs Package [PStr ''package_settings''] s0) (\<lambda>s1.
     override_settings fs Root [PStr ''local_settings''] s1)))"

section \<open>Text, numbers and columns\<close>

text \<open>
  Python strings are sequences of code points; the model keeps the code points below 256,
  one \<open>char\<close> each, which covers ASCII and the middle dot \<^verbatim>\<open>chr(183)\<close> that the
  source names. The character classes are those of Python's \<^verbatim>\<open>re\<close> on \<^verbatim>\<open>str\<close>
  patterns in that range.
\<close>

definition code_point :: "char \<Rightarrow> nat" where
  "code_point c = of_char c"

definition is_space :: "char \<Rightarrow> bool" where
  "is_space c = (let n = code_point c in (9 \<le> n \<and> n \<le> 13) \<or> (28 \<le> n \<and> n \<le> 32) \<or> n = 133 \<or> n = 160)"

definition is_space_ascii :: "char \<Rightarrow> bool" where
  "is_space_ascii c = (let n = code_point c in (9 \<le> n \<and> n \<le> 13) \<or> n = 32)"

definition is_digit :: "char \<Rightarrow> bool" where
  "is_digit c = (let n = code_point c in 48 \<le> n \<and> n \<le> 57)"

definition is_word :: "char \<Rightarrow> bool" where
  "is_word c =
     (let n = code_point c in
        (48 \<le> n \<and> n \<le> 57) \<or> (65 \<le> n \<and> n \<le> 90) \<or> (97 \<le> n \<and> n \<le> 122) \<or> n = 95 \<or>
        n = 170 \<or> n = 178 \<or> n = 179 \<or> n = 181 \<or> n = 185 \<or> n = 186 \<or>
        (188 \<le> n \<and> n \<le> 190) \<or> (192 \<le> n \<and> n \<le> 214) \<or> (216 \<le> n \<and> n \<le> 246) \<or> 248 \<le> n)"

text \<open>
  \<^verbatim>\<open>str.upper\<close> is the case mapping of Unicode: it maps letters outside ASCII too, some
  of them to several characters or to code points beyond 255. The functions that call it
  take it as a parameter \<open>str_upper\<close>, any function on texts. \<open>upper\<close> is that mapping
  on ASCII text, where it changes the letters a to z and nothing else; \<open>lower\<close> is the
  folding of ASCII letters under which the parser of numbers compares names.
\<close>

type_synonym case_mapping = "string \<Rightarrow> string"

definition upper_char :: "char \<Rightarrow> char" where
  "upper_char c = (let n = code_point c in if 97 \<le> n \<and> n \<le> 122 then char_of (n - 32) else c)"

definition lower_char :: "char \<Rightarrow> char" where
  "lower_char c = (let n = code_point c in if 65 \<le> n \<and> n \<le> 90 then char_of (n + 32) else c)"

definition upper :: "string \<Rightarrow> string" where
  "upper s = map upper_char s"

definition lower :: "string \<Rightarrow> string" where
  "lower s = map lower_char s"

text \<open>
  A cell of a pandas column: missing (\<^verbatim>\<open>NaN\<close>, \<^verbatim>\<open>None\<close>, \<^verbatim>\<open>pd.NA\<close>), a number, an
  infinity (\<open>True\<close> for the negative one), a text or a boolean. Numbers are exact
  rationals: the rounding of floats is not modelled, and the widths of the integer
  dtypes only where an operation below raises on them or wraps around. A column is the
  list of its cells; as for a column that
  \<^verbatim>\<open>pd.read_csv\<close> returns, its dtype is \<^verbatim>\<open>object\<close> exactly when some cell is a text.
\<close>

datatype cell = NA | Num rat | Infinity bool | Str string | Bool bool

type_synonym column = "cell list"

fun is_text :: "cell \<Rightarrow> bool" where
  "is_text (Str s) = True"
| "is_text c = False"

definition is_numeric_dtype :: "column \<Rightarrow> bool" where
  "is_numeric_dtype col = list_all (\<lambda>c. \<not> is_text c) col"

subsection \<open>Parsing numbers\<close>

text \<open>
  The grammar of the parser behind \<^verbatim>\<open>pd.to_numeric\<close>: optional ASCII blanks, an optional
  sign, digits with an optional decimal point (at least one digit in all), an optional
  exponent with at least one digit, optional blanks; or one of the names of an infinity,
  in any letter case. The names of a NaN are no numbers to this parser. A text of this
  grammar stands for its exact value: the seventeen significant digits that the parser
  keeps, the range of floats and their rounding are not modelled, so that the model is
  exact on short texts without exponent and idealized on the others.
\<close>

definition digits_value :: "string \<Rightarrow> int" where
  "digits_value ds = foldl (\<lambda>a c. 10 * a + (int (code_point c) - 48)) 0 ds"

fun split_sign :: "string \<Rightarrow> bool \<times> string" where
  "split_sign [] = (False, [])"
| "split_sign (c # cs) =
     (if c = CHR ''-'' then (True, cs) else if c = CHR ''+'' then (False, cs) else (False, c # cs))"

fun split_fraction :: "string \<Rightarrow> string \<times> string" where
  "split_fraction [] = ([], [])"
| "split_fraction (c # cs) =
     (if c = CHR ''.'' then (takeWhile is_digit cs, dropWhile is_digit cs) else ([], c # cs))"

fun split_exponent :: "string \<Rightarrow> (int \<times> string) option" where
  "split_exponent [] = Some (0, [])"
| "split_exponent (c # cs) =
     (if c = CHR ''e'' \<or> c = CHR ''E''
      then (let (neg, r) = split_sign cs; ds = takeWhile is_digit r
            in if ds = [] then None
               else Some ((if neg then - digits_value ds else digits_value ds),
                          dropWhile is_digit r))
      else Some (0, c # cs))"

definition scale10 :: "rat \<Rightarrow> int \<Rightarrow> rat" where
  "scale10 x e = (if 0 \<le> e then x * 10 ^ nat e else x / 10 ^ nat (- e))"

definition parse_decimal :: "string \<Rightarrow> rat option" where
  "parse_decimal s =
     (let (neg, s2) = split_sign (dropWhile is_space_ascii s);
          ip = takeWhile is_digit s2;
          (fp, s4) = split_fraction (dropWhile is_digit s2)
      in if ip = [] \<and> fp = [] then None
         else (case split_exponent s4 of
                 None \<Rightarrow> None
               | Some (e, s5) \<Rightarrow>
                   if dropWhile is_space_ascii s5 = []
                   then (let m = of_int (digits_value ip) + of_int (digits_value fp) / 10 ^ length fp
                         in Some (scale10 (if neg then - m else m) e))
                   else None))"

definition parse_number :: "string \<Rightarrow> cell option" where
  "parse_number s =
     (case parse_decimal s of
        Some r \<Rightarrow> Some (Num r)
      | None \<Rightarrow>
          (let l = lower s in
             if l \<in> set [''inf'', ''+inf'', ''infinity'', ''+infinity''] then Some (Infinity False)
             else if l \<in> set [''-inf'', ''-infinity''] then Some (Infinity True)
             else None))"

text \<open>
  A parsed text counts as an integer when it has neither a decimal point nor an exponent;
  its value is then a whole number.
\<close>

definition integer_text :: "string \<Rightarrow> int option" where
  "integer_text s =
     (case parse_decimal s of
        Some r \<Rightarrow>
          if CHR ''.'' \<notin> set s \<and> CHR ''e'' \<notin> set s \<and> CHR ''E'' \<notin> set s then Some \<lfloor>r\<rfloor> else None
      | None \<Rightarrow> None)"

text \<open>Python's \<^verbatim>\<open>int(s)\<close> on a text: blanks around an optional sign and ASCII digits.\<close>

definition parse_int :: "string \<Rightarrow> int option" where
  "parse_int s =
     (let (neg, s2) = split_sign (dropWhile is_space s);
          ds = takeWhile is_digit s2
      in if ds \<noteq> [] \<and> dropWhile is_space (dropWhile is_digit s2) = []
         then Some (if neg then - digits_value ds else digits_value ds)
         else None)"

subsection \<open>The pandas operations the cleaner calls\<close>

text \<open>
  \<^verbatim>\<open>Series.replace(mapping)\<close>: every cell equal to a key becomes that key's value; all
  keys are matched against the original cells. The key \<^verbatim>\<open>None\<close> stands for a missing
  value: it matches the missing cells of an \<^verbatim>\<open>object\<close> column and nothing in a column
  of a numeric dtype, which cannot hold it. A key or value that is a sequence or a
  mapping, and an argument that is no mapping, are outside this form of the call and
  reported as \<^verbatim>\<open>TypeError\<close>.
\<close>

fun cell_of :: "pyval \<Rightarrow> cell option" where
  "cell_of PNone = Some NA"
| "cell_of (PBool b) = Some (Bool b)"
| "cell_of (PInt i) = Some (Num (of_int i))"
| "cell_of (PStr s) = Some (Str s)"
| "cell_of v = None"

fun replace_cell :: "bool \<Rightarrow> (pyval \<times> pyval) list \<Rightarrow> cell \<Rightarrow> error + cell" where
  "replace_cell object_dtype [] c = Inr c"
| "replace_cell object_dtype ((k, v) # rest) c =
     (case cell_of k of
        None \<Rightarrow> Inl TypeError
      | Some kc \<Rightarrow>
          if kc = c \<and> (if c = NA then object_dtype else True)
          then (case cell_of v of None \<Rightarrow> Inl TypeError | Some vc \<Rightarrow> Inr vc)
          else replace_cell object_dtype rest c)"

fun map_cells :: "(cell \<Rightarrow> error + cell) \<Rightarrow> column \<Rightarrow> error + column" where
  "map_cells f [] = Inr []"
| "map_cells f (c # cs) = ebind (f c) (\<lambda>c'. ebind (map_cells f cs) (\<lambda>cs'. Inr (c' # cs')))"

definition series_replace :: "pyval \<Rightarrow> column \<Rightarrow> error + column" where
  "series_replace to_replace col =
     (case to_replace of
        PDict d \<Rightarrow> map_cells (replace_cell (\<not> is_numeric_dtype col) d) col
      | _ \<Rightarrow> Inl TypeError)"

text \<open>
  \<^verbatim>\<open>pd.to_numeric(column, downcast=...)\<close> with the default \<^verbatim>\<open>errors="raise"\<close>. A column
  of a numeric dtype is returned as it is. An \<^verbatim>\<open>object\<close> column is scanned in order:
  the empty text is missing; a text that does not parse raises \<^verbatim>\<open>ValueError\<close> with the
  text and its position; an integer text below \<open>- (2 ^ 63)\<close> or above \<open>2 ^ 64 - 1\<close> raises
  \<^verbatim>\<open>ValueError\<close> (integer out of range) with its position. After a scan without error,
  a column in which an integer above \<open>2 ^ 63 - 1\<close> meets a missing cell or a negative
  integer is handed back as it was; any other column is returned parsed. The cleaner
  calls this on a sanitized column, which holds texts and missing cells only; a cell of
  another kind is passed through.
\<close>

definition integer_out_of_range :: "string \<Rightarrow> bool" where
  "integer_out_of_range s =
     (case integer_text s of Some n \<Rightarrow> n < - (2 ^ 63) \<or> 2 ^ 64 \<le> n | None \<Rightarrow> False)"

fun to_numeric_from :: "nat \<Rightarrow> column \<Rightarrow> error + column" where
  "to_numeric_from i [] = Inr []"
| "to_numeric_from i (Str s # cs) =
     (if s = [] then ebind (to_numeric_from (Suc i) cs) (\<lambda>r. Inr (NA # r))
      else (case parse_number s of
              None \<Rightarrow> Inl (ValueError (UnableToParse s i))
            | Some v \<Rightarrow>
                if integer_out_of_range s then Inl (ValueError (IntegerOutOfRange i))
                else ebind (to_numeric_from (Suc i) cs) (\<lambda>r. Inr (v # r))))"
| "to_numeric_from i (Bool b # cs) =
     ebind (to_numeric_from (Suc i) cs) (\<lambda>r. Inr (Num (if b then 1 else 0) # r))"
| "to_numeric_from i (c # cs) = ebind (to_numeric_from (Suc i) cs) (\<lambda>r. Inr (c # r))"

fun unsigned_beyond_int64 :: "cell \<Rightarrow> bool" where
  "unsigned_beyond_int64 (Str s) = (case integer_text s of Some n \<Rightarrow> 2 ^ 63 \<le> n | None \<Rightarrow> False)"
| "unsigned_beyond_int64 c = False"

fun negative_integer :: "cell \<Rightarrow> bool" where
  "negative_integer (Str s) = (case integer_text s of Some n \<Rightarrow> n < 0 | None \<Rightarrow> False)"
| "negative_integer c = False"

definition uint64_conflict :: "column \<Rightarrow> bool" where
  "uint64_conflict col =
     (list_ex unsigned_beyond_int64 col \<and>
      (list_ex (\<lambda>c. c = NA \<or> c = Str []) col \<or> list_ex negative_integer col))"

definition to_numeric :: "column \<Rightarrow> error + column" where
  "to_numeric col =
     (if is_numeric_dtype col then Inr col
      else ebind (to_numeric_from 0 col) (\<lambda>r. if uint64_conflict col then Inr col else Inr r))"

text \<open>
  \<^verbatim>\<open>Series.astype\<close> to a nullable integer dtype with the values \<open>lo\<close> to \<open>hi\<close>: a number
  must be whole and in range (\<^verbatim>\<open>TypeError\<close>: cannot safely cast), an infinity is an
  \<^verbatim>\<open>OverflowError\<close>, missing stays missing. A text goes through \<^verbatim>\<open>int\<close> and the
  conversion of numpy 1.x to a C integer: a value beyond 64 bits is an
  \<^verbatim>\<open>OverflowError\<close>, and any other value wraps around into the width.
\<close>

definition wrap_around :: "int \<Rightarrow> int \<Rightarrow> int \<Rightarrow> int" where
  "wrap_around lo hi i = lo + (i - lo) mod (hi - lo + 1)"

fun cast_int_cell :: "int \<Rightarrow> int \<Rightarrow> cell \<Rightarrow> error + cell" where
  "cast_int_cell lo hi NA = Inr NA"
| "cast_int_cell lo hi (Num r) =
     (if r = of_int \<lfloor>r\<rfloor> \<and> lo \<le> \<lfloor>r\<rfloor> \<and> \<lfloor>r\<rfloor> \<le> hi then Inr (Num r) else Inl TypeError)"
| "cast_int_cell lo hi (Infinity b) = Inl OverflowError"
| "cast_int_cell lo hi (Bool b) = Inr (Num (if b then 1 else 0))"
| "cast_int_cell lo hi (Str s) =
     (case parse_int s of
        None \<Rightarrow> Inl (ValueError (InvalidLiteral s))
      | Some i \<Rightarrow>
          if - (2 ^ 63) \<le> i \<and> i \<le> max hi (2 ^ 63 - 1) then Inr (Num (of_int (wrap_around lo hi i)))
          else Inl OverflowError)"

definition astype_Int32 :: "column \<Rightarrow> error + column" where
  "astype_Int32 col = map_cells (cast_int_cell (- (2 ^ 31)) (2 ^ 31 - 1)) col"

definition astype_UInt :: "nat \<Rightarrow> column \<Rightarrow> error + column" where
  "astype_UInt w col = map_cells (cast_int_cell 0 (2 ^ w - 1)) col"

text \<open>
  The number a Python key or scalar stands for when it is compared with a number
  (\<^verbatim>\<open>True == 1\<close>), and the comparison \<^verbatim>\<open>column == scalar\<close> on a nullable integer column,
  where missing propagates. A sequence or a mapping is no scalar: \<^verbatim>\<open>TypeError\<close>.
\<close>

fun py_number :: "pyval \<Rightarrow> rat option" where
  "py_number (PInt i) = Some (of_int i)"
| "py_number (PBool b) = Some (if b then 1 else 0)"
| "py_number v = None"

fun eq_cell :: "pyval \<Rightarrow> cell \<Rightarrow> cell" where
  "eq_cell v (Num r) = Bool (py_number v = Some r)"
| "eq_cell v c = NA"

definition series_eq :: "column \<Rightarrow> pyval \<Rightarrow> error + column" where
  "series_eq col v = (if hashable v then Inr (map (eq_cell v) col) else Inl TypeError)"

text \<open>
  \<^verbatim>\<open>astype("category")\<close> followed by \<^verbatim>\<open>cat.rename_categories(mapping)\<close>. The categories
  are the distinct values present; each one that is a key of the mapping is renamed to
  the key's value, each other one is passed through as it is, and missing stays missing.
  The new categories must be hashable, not null and pairwise distinct.
\<close>

fun key_matches :: "pyval \<Rightarrow> cell \<Rightarrow> bool" where
  "key_matches (PStr k) (Str s) = (k = s)"
| "key_matches k (Num r) = (py_number k = Some r)"
| "key_matches k (Bool b) = (py_number k = Some (if b then 1 else 0))"
| "key_matches k c = False"

fun dict_get :: "(pyval \<times> pyval) list \<Rightarrow> cell \<Rightarrow> pyval option" where
  "dict_get [] c = None"
| "dict_get ((k, v) # rest) c = (if key_matches k c then Some v else dict_get rest c)"

definition categories_of :: "column \<Rightarrow> cell list" where
  "categories_of col = remdups (filter (\<lambda>c. c \<noteq> NA) col)"

definition rename_cell :: "(pyval \<times> pyval) list \<Rightarrow> cell \<Rightarrow> cell" where
  "rename_cell d c =
     (if c = NA then NA
      else (case dict_get d c of
              None \<Rightarrow> c
            | Some v \<Rightarrow> (case cell_of v of Some l \<Rightarrow> l | None \<Rightarrow> NA)))"

definition rename_categories :: "(pyval \<times> pyval) list \<Rightarrow> column \<Rightarrow> error + column" where
  "rename_categories d col =
     (let cats = categories_of col;
          labels = map (dict_get d) cats
      in if list_ex (\<lambda>l. case l of Some v \<Rightarrow> \<not> hashable v | None \<Rightarrow> False) labels then Inl TypeError
         else if Some PNone \<in> set labels then Inl (ValueError CategoriesNull)
         else if \<not> distinct (map (rename_cell d) cats) then Inl (ValueError CategoriesNotUnique)
         else Inr (map (rename_cell d) col))"

section \<open>Cleaning one column: \<^verbatim>\<open>data_cleaner.py\<close>\<close>

text \<open>
  \<^verbatim>\<open>_general_cleaning\<close>. A column of a numeric dtype is returned as it is. In an
  \<^verbatim>\<open>object\<close> column the string methods turn every cell that is no text into missing,
  and on a text, in this order: the middle dot becomes a full stop; trailing full stops
  are stripped; the characters of \<^verbatim>\<open>chars_to_remove\<close> are deleted; every hyphen that
  follows a word character is deleted (\<^verbatim>\<open>\b\-\<close>: the hyphen is no word character, so
  the boundary is there exactly when the character before it is one); a text of only
  white space, full stops and hyphens becomes missing. A column with a text cell admits
  the \<^verbatim>\<open>.str\<close> accessor, so the \<^verbatim>\<open>AttributeError\<close> branch is not taken.
\<close>

definition middle_dot :: char where
  "middle_dot = CHR 0xB7"

definition chars_to_remove :: "char list" where
  "chars_to_remove =
     [CHR 0x0A, CHR 0x0D, CHR '','', CHR ''@'', CHR ''+'', CHR ''*'', CHR ''['', CHR '']'',
      CHR ''_'', CHR ''?'', CHR ''&'']"

definition rstrip_dots :: "string \<Rightarrow> string" where
  "rstrip_dots s = rev (dropWhile (\<lambda>c. c = CHR ''.'') (rev s))"

fun remove_boundary_hyphens :: "bool \<Rightarrow> string \<Rightarrow> string" where
  "remove_boundary_hyphens after_word [] = []"
| "remove_boundary_hyphens after_word (c # cs) =
     (if c = CHR ''-'' \<and> after_word then remove_boundary_hyphens False cs
      else c # remove_boundary_hyphens (is_word c) cs)"

definition is_blank :: "string \<Rightarrow> bool" where
  "is_blank s = list_all (\<lambda>c. is_space c \<or> c = CHR ''.'' \<or> c = CHR ''-'') s"

definition clean_text :: "string \<Rightarrow> cell" where
  "clean_text s =
     (let s1 = rstrip_dots (map (\<lambda>c. if c = middle_dot then CHR ''.'' else c) s);
          s2 = filter (\<lambda>c. c \<notin> set chars_to_remove) s1;
          s3 = remove_boundary_hyphens False s2
      in if is_blank s3 then NA else Str s3)"

fun clean_cell :: "cell \<Rightarrow> cell" where
  "clean_cell (Str s) = clean_text s"
| "clean_cell c = NA"

definition general_cleaning :: "column \<Rightarrow> column" where
  "general_cleaning col = (if is_numeric_dtype col then col else map clean_cell col)"

text \<open>
  \<^verbatim>\<open>_apply_type_to_column\<close>: the chain of comparisons on the declared type, in the
  order of the source. \<^verbatim>\<open>new_column\<close> starts as a column of \<^verbatim>\<open>NaN\<close> over the index of
  the cleaned column and is what the function returns when no branch is taken.
\<close>

definition apply_category :: "column \<Rightarrow> pyval \<Rightarrow> error + column" where
  "apply_category col categories =
     (case categories of
        PDict d \<Rightarrow>
          (case d of
             [] \<Rightarrow> Inl IndexError
           | (k, v) # rest \<Rightarrow>
               if py_number k \<noteq> None
               then ebind (astype_Int32 col) (\<lambda>c. rename_categories d c)
               else rename_categories d col)
      | _ \<Rightarrow> Inl AttributeError)"

definition apply_type_to_column :: "column \<Rightarrow> pyval \<Rightarrow> error + column" where
  "apply_type_to_column col0 column_metadata =
     (let col = general_cleaning col0 in
      ebind (py_contains column_metadata (PStr ''type'')) (\<lambda>has_type.
        if \<not> has_type then Inr col
        else ebind (py_getitem column_metadata (PStr ''type'')) (\<lambda>t.
          if t = PStr ''string'' then Inr col
          else if t = PStr ''boolean'' then
            ebind (astype_Int32 col) (\<lambda>c.
            ebind (py_getitem column_metadata (PStr ''true_condition'')) (\<lambda>tc. series_eq c tc))
          else if t \<in> set [PStr ''unsigned'', PStr ''integer'', PStr ''float''] then to_numeric col
          else if t = PStr ''UInt8'' then astype_UInt 8 col
          else if t = PStr ''UInt16'' then astype_UInt 16 col
          else if t = PStr ''UInt32'' then astype_UInt 32 col
          else if t = PStr ''UInt64'' then astype_UInt 64 col
          else if t = PStr ''category'' then
            ebind (py_getitem column_metadata (PStr ''categories'')) (apply_category col)
          else Inr (replicate (length col) NA))))"

text \<open>\<^verbatim>\<open>_apply_metadata_to_column\<close>: value substitution, then the type.\<close>

definition apply_metadata_to_column :: "column \<Rightarrow> pyval \<Rightarrow> error + column" where
  "apply_metadata_to_column col column_metadata =
     ebind (py_contains column_metadata (PStr ''replace'')) (\<lambda>has_replace.
       if \<not> has_replace then apply_type_to_column col column_metadata
       else ebind (py_getitem column_metadata (PStr ''replace'')) (\<lambda>r.
         if r = PNone then apply_type_to_column col column_metadata
         else ebind (series_replace r col) (\<lambda>c. apply_type_to_column c column_metadata)))"

section \<open>Looking up the metadata of a column\<close>

text \<open>
  \<^verbatim>\<open>_get_table_settings\<close> reads \<^verbatim>\<open>default_table_settings\<close> from the registry
  \<^verbatim>\<open>metadata.tables\<close>, returns it when the table metadata has no \<^verbatim>\<open>settings\<close>
  key, and otherwise assigns every default key that the settings lack into the settings
  object itself. That object is the one the table metadata holds, so the caller's table
  metadata changes with it: the model returns the settings together with the table
  metadata as it is after the call.
\<close>

fun inherit_defaults :: "pyval \<Rightarrow> pyval list \<Rightarrow> pyval \<Rightarrow> error + pyval" where
  "inherit_defaults default_table_settings [] table_settings = Inr table_settings"
| "inherit_defaults default_table_settings (key # keys) table_settings =
     ebind (py_contains table_settings key) (\<lambda>present.
       if present then inherit_defaults default_table_settings keys table_settings
       else ebind (py_getitem default_table_settings key) (\<lambda>v.
            ebind (py_setitem table_settings key v) (\<lambda>ts.
              inherit_defaults default_table_settings keys ts)))"

definition get_table_settings :: "pyval \<Rightarrow> pyval \<Rightarrow> error + (pyval \<times> pyval)" where
  "get_table_settings tables table_metadata =
     ebind (py_getitem tables (PStr ''default_table_settings'')) (\<lambda>default_table_settings.
       case py_getitem table_metadata (PStr ''settings'') of
         Inl (KeyError k) \<Rightarrow> Inr (default_table_settings, table_metadata)
       | Inl e \<Rightarrow> Inl e
       | Inr table_settings \<Rightarrow>
           ebind (py_iter default_table_settings) (\<lambda>keys.
           ebind (inherit_defaults default_table_settings keys table_settings) (\<lambda>ts.
           ebind (py_setitem table_metadata (PStr ''settings'') ts) (\<lambda>tm.
             Inr (ts, tm)))))"

text \<open>
  \<^verbatim>\<open>_get_column_metadata\<close>, with the table metadata after the call as second
  component.
\<close>

definition get_column_metadata :: "pyval \<Rightarrow> pyval \<Rightarrow> string \<Rightarrow> error + (pyval \<times> pyval)" where
  "get_column_metadata tables table_metadata column_name =
     ebind (get_table_settings tables table_metadata) (\<lambda>(table_settings, tm).
     ebind (py_getitem tm (PStr ''columns'')) (\<lambda>columns_metadata.
       case columns_metadata of
         PDict cd \<Rightarrow>
           (case map_of cd (PStr column_name) of
              Some column_metadata \<Rightarrow>
                if is_dict column_metadata \<or> column_metadata = PStr ''drop''
                then Inr (column_metadata, tm)
                else Inl (ValueError (InvalidColumnMetadata column_name))
            | None \<Rightarrow>
                ebind (py_getitem table_settings (PStr ''missings'')) (\<lambda>column_metadata.
                  if column_metadata \<notin> set [PStr ''drop'', PStr ''error'']
                  then Inl (ValueError InvalidMissingTreatment)
                  else Inr (column_metadata, tm)))
       | _ \<Rightarrow> Inl (ValueError (InvalidColumnsMetadata column_name columns_metadata))))"

section \<open>Cleaning a table and a batch of tables\<close>

text \<open>
  A raw table is the list of its named columns in file order; a cleaned table is keyed
  by the new names, and \<^verbatim>\<open>cleaned_table[name] = column\<close> overwrites a column of that
  name in place or appends a new one. The loop of \<^verbatim>\<open>_apply_metadata_to_table\<close> carries
  the cleaned table and the table metadata.
\<close>

type_synonym raw_table = "(string \<times> column) list"
type_synonym cleaned_table = "(pyval \<times> column) list"

fun clean_columns ::
  "case_mapping \<Rightarrow> pyval \<Rightarrow> raw_table \<Rightarrow> cleaned_table \<Rightarrow> pyval \<Rightarrow>
   error + (cleaned_table \<times> pyval)" where
  "clean_columns str_upper tables [] cleaned_table table_metadata = Inr (cleaned_table, table_metadata)"
| "clean_columns str_upper tables ((column_name, col) # rest) cleaned_table table_metadata =
     ebind (get_column_metadata tables table_metadata (str_upper column_name)) (\<lambda>(column_metadata, tm).
       if column_metadata = PStr ''drop'' then clean_columns str_upper tables rest cleaned_table tm
       else if column_metadata = PStr ''error'' then Inl (ValueError (ColumnNotFound column_name))
       else ebind (apply_metadata_to_column col column_metadata) (\<lambda>c.
            ebind (py_getitem column_metadata (PStr ''new_name'')) (\<lambda>new_name.
              if hashable new_name
              then clean_columns str_upper tables rest (AList.update new_name c cleaned_table) tm
              else Inl TypeError)))"

definition apply_metadata_to_table ::
  "case_mapping \<Rightarrow> pyval \<Rightarrow> raw_table \<Rightarrow> pyval \<Rightarrow> error + (cleaned_table \<times> pyval)" where
  "apply_metadata_to_table str_upper tables table table_metadata =
     clean_columns str_upper tables table [] table_metadata"

text \<open>
  \<^verbatim>\<open>utils.resolve_metadata\<close> is not part of the sources at hand: it is a parameter
  \<open>resolve\<close> of the functions that call it, taking the versioned value and the year and
  returning the resolved structure or an error. The extracted CSV files are a function
  \<open>files\<close> from the two values that the path is formatted from, the year and the file
  code, to the table that \<^verbatim>\<open>pd.read_csv\<close> returns there, if the file exists.
\<close>

type_synonym resolver = "pyval \<Rightarrow> pyval \<Rightarrow> error + pyval"
type_synonym csv_files = "pyval \<Rightarrow> pyval \<Rightarrow> raw_table option"

definition load_raw_data :: "resolver \<Rightarrow> pyval \<Rightarrow> csv_files \<Rightarrow> pyval \<Rightarrow> pyval \<Rightarrow> error + raw_table" where
  "load_raw_data resolve tables files year table_name =
     ebind (py_getitem tables table_name) (\<lambda>t.
     ebind (py_getitem t (PStr ''file_code'')) (\<lambda>versioned.
     ebind (resolve versioned year) (\<lambda>file_code.
       if file_code = PNone then Inl (ValueError (TableNotAvailable table_name year))
       else (case files year file_code of None \<Rightarrow> Inl FileNotFoundError | Some table \<Rightarrow> Inr table))))"

definition open_and_clean_table ::
  "case_mapping \<Rightarrow> resolver \<Rightarrow> pyval \<Rightarrow> csv_files \<Rightarrow> pyval \<Rightarrow> pyval \<Rightarrow> error + cleaned_table" where
  "open_and_clean_table str_upper resolve tables files year table_name =
     ebind (load_raw_data resolve tables files year table_name) (\<lambda>table.
     ebind (py_getitem tables table_name) (\<lambda>t.
     ebind (resolve t year) (\<lambda>table_metadata.
     ebind (apply_metadata_to_table str_upper tables table table_metadata) (\<lambda>(cleaned_table, tm).
       Inr cleaned_table))))"

text \<open>
  Modelled from the spec: \<^verbatim>\<open>utils.construct_table_year_pairs\<close> is not part of the
  sources at hand; by the spec the batch runs over the cartesian product of the table
  names and the years, table by table.
\<close>

definition construct_table_year_pairs :: "pyval list \<Rightarrow> pyval list \<Rightarrow> (pyval \<times> pyval) list" where
  "construct_table_year_pairs table_names years = List.product table_names years"

definition original_tables :: "pyval list" where
  "original_tables = [PStr ''data'']"

text \<open>
  \<^verbatim>\<open>save_cleaned_tables\<close>. The Parquet files written so far are an association list
  from the two values that the file name \<^verbatim>\<open>{year}_{_table_name}.parquet\<close> is formatted
  from to the table written. The loop returns the error that ended it, if any, and the
  files as they are then. The call in the loop body passes \<^verbatim>\<open>_table_name\<close> and
  \<^verbatim>\<open>year\<close> by position to \<^verbatim>\<open>open_and_clean_table(year, table_name)\<close>.
\<close>

type_synonym parquet_files = "((pyval \<times> pyval) \<times> cleaned_table) list"

fun save_loop ::
  "case_mapping \<Rightarrow> resolver \<Rightarrow> pyval \<Rightarrow> csv_files \<Rightarrow> (pyval \<times> pyval) list \<Rightarrow> parquet_files \<Rightarrow>
   error option \<times> parquet_files" where
  "save_loop str_upper resolve tables files [] written = (None, written)"
| "save_loop str_upper resolve tables files ((table_name, year) # rest) written =
     (case open_and_clean_table str_upper resolve tables files table_name year of
        Inl e \<Rightarrow> (Some e, written)
      | Inr table \<Rightarrow>
          save_loop str_upper resolve tables files rest (AList.update (year, table_name) table written))"

definition save_cleaned_tables ::
  "case_mapping \<Rightarrow> resolver \<Rightarrow> pyval \<Rightarrow> csv_files \<Rightarrow> pyval list option \<Rightarrow> pyval list \<Rightarrow>
   parquet_files \<Rightarrow> error option \<times> parquet_files" where
  "save_cleaned_tables str_upper resolve tables files table_names years written =
     (let names = (case table_names of None \<Rightarrow> original_tables | Some ns \<Rightarrow> ns)
      in save_loop str_upper resolve tables files (construct_table_year_pairs names years) written)"

section \<open>Notions used in the statements\<close>



definition is_code :: "cell \<Rightarrow> bool" where
  "is_code c = (c = NA \<or> (\<exists>i. c = Num (of_int i) \<and> - (2 ^ 31) \<le> i \<and> i < 2 ^ 31))"

definition relabelled :: "(pyval \<times> pyval) list \<Rightarrow> cell \<Rightarrow> cell" where
  "relabelled d c =
     (case c of
        Num r \<Rightarrow> (case map_of d (PInt \<lfloor>r\<rfloor>) of Some (PStr l) \<Rightarrow> Str l | _ \<Rightarrow> Num r)
      | _ \<Rightarrow> NA)"

section \<open>Example inputs\<close>

text \<open>
  A registry without year-keyed branches, for which resolution returns the value itself,
  with two tables that share one metadata and one file code; and the extracted files of
  two years, the second with a column that the metadata does not list. The column names
  are ASCII, so that \<open>upper\<close> is \<^verbatim>\<open>str.upper\<close> on them.
\<close>

definition resolve_static :: resolver where
  "resolve_static versioned year = Inr versioned"

definition example_table_metadata :: pyval where
  "example_table_metadata =
     PDict [(PStr ''file_code'', PStr ''LFS''),
            (PStr ''settings'', PDict []),
            (PStr ''columns'',
             PDict [(PStr ''AGE'', PDict [(PStr ''new_name'', PStr ''Age''), (PStr ''type'', PStr ''unsigned'')]),
                    (PStr ''NOTE'', PStr ''drop''),
                    (PStr ''AREA'',
                     PDict [(PStr ''new_name'', PStr ''Area''), (PStr ''type'', PStr ''category''),
                            (PStr ''categories'', PDict [(PInt 1, PStr ''Urban''), (PInt 2, PStr ''Rural'')])])])]"

definition example_tables :: pyval where
  "example_tables =
     PDict [(PStr ''default_table_settings'', PDict [(PStr ''missings'', PStr ''error'')]),
            (PStr ''data'', example_table_metadata),
            (PStr ''other'', example_table_metadata)]"

definition example_raw_table :: raw_table where
  "example_raw_table =
     [(''age'', [Num 31, Num 47]), (''note'', [Str ''x'', Str ''y'']), (''area'', [Num 1, Num 2])]"

definition example_files :: csv_files where
  "example_files year file_code =
     (if file_code = PStr ''LFS'' \<and> year = PInt 1390 then Some example_raw_table
      else if file_code = PStr ''LFS'' \<and> year = PInt 1391
      then Some [(''age'', [Num 25]), (''extra'', [Num 0])]
      else None)"

section \<open>Properties\<close>

subsection \<open>Auxiliary facts\<close>

lemma ebind_simps [simp]: "ebind (Inl e) f = Inl e" "ebind (Inr x) f = f x"
  by (simp_all add: ebind_def)

lemma ebind_Inr_iff: "ebind m f = Inr y \<longleftrightarrow> (\<exists>x. m = Inr x \<and> f x = Inr y)"
  by (cases m) simp_all

lemma keys_update_present: "k \<in> fst ` set al \<Longrightarrow> fst ` set (AList.update k v al) = fst ` set al"
  by (auto simp: dom_update)

lemma map_fst_update_present: "k \<in> fst ` set al \<Longrightarrow> map fst (AList.update k v al) = map fst al"
  by (induction al) auto

subsection \<open>Merging settings\<close>

lemma update_settings_keys: "map fst (update_settings s n) = map fst s"
  by (induction n arbitrary: s) (auto simp: map_fst_update_present)

lemma update_settings_map_of:
  "distinct (map fst n) \<Longrightarrow>
   map_of (update_settings s n) key =
     (if key \<in> fst ` set s
      then (case map_of n key of Some v \<Rightarrow> Some v | None \<Rightarrow> map_of s key)
      else None)"
proof (induction n arbitrary: s)
  case Nil
  then show ?case by (auto simp: map_of_eq_None_iff)
next
  case (Cons p n)
  obtain k v where p: "p = (k, v)" by (cases p)
  from Cons.prems p have dn: "distinct (map fst n)" and kn: "k \<notin> fst ` set n" by auto
  from kn have none: "map_of n k = None" by (simp add: map_of_eq_None_iff)
  show ?case
  proof (cases "k \<in> fst ` set s")
    case True
    then show ?thesis
      using Cons.IH [OF dn, of "AList.update k v s"] p none
      by (auto simp: keys_update_present update_conv' split: option.splits)
  next
    case False
    then show ?thesis
      using Cons.IH [OF dn, of s] p by (auto split: option.splits)
  qed
qed

text \<open>
  C5. Merging an override into the flattened defaults keeps exactly the key paths of the
  defaults, in their order; a key path of the defaults holds the override's value when
  the override has that key path and the default value otherwise; a key path that only
  the override has is absent from the result. The override is a dict: its key paths
  are pairwise distinct.
\<close>

theorem update_settings_merge:
  assumes "distinct (map fst new_settings)"
  shows "map fst (update_settings defaults new_settings) = map fst defaults \<and>
         map_of (update_settings defaults new_settings) key =
           (if key \<in> fst ` set defaults
            then (case map_of new_settings key of Some v \<Rightarrow> Some v | None \<Rightarrow> map_of defaults key)
            else None)"
  using assms by (simp add: update_settings_keys update_settings_map_of)

theorem update_settings_merge_witness:
  "distinct (map fst [([PStr ''b'', PStr ''c''], PInt 5), ([PStr ''z''], PInt 9)]) \<and>
   map_of (update_settings [([PStr ''a''], PInt 1), ([PStr ''b'', PStr ''c''], PInt 2)]
            [([PStr ''b'', PStr ''c''], PInt 5), ([PStr ''z''], PInt 9)]) [PStr ''b'', PStr ''c''] = Some (PInt 5) \<and>
   map_of (update_settings [([PStr ''a''], PInt 1), ([PStr ''b'', PStr ''c''], PInt 2)]
            [([PStr ''b'', PStr ''c''], PInt 5), ([PStr ''z''], PInt 9)]) [PStr ''z''] = None"
  using update_settings_merge [of "[([PStr ''b'', PStr ''c''], PInt 5), ([PStr ''z''], PInt 9)]"
      "[([PStr ''a''], PInt 1), ([PStr ''b'', PStr ''c''], PInt 2)]" "[PStr ''b'', PStr ''c'']"]
    update_settings_merge [of "[([PStr ''b'', PStr ''c''], PInt 5), ([PStr ''z''], PInt 9)]"
      "[([PStr ''a''], PInt 1), ([PStr ''b'', PStr ''c''], PInt 2)]" "[PStr ''z'']"]
  by simp

text \<open>
  The documents that \<^verbatim>\<open>collect_settings\<close> merges are flattened dicts, so their key
  paths are pairwise distinct, and the collected settings have exactly the key paths of
  the flattened default document.
\<close>

lemma fold_update_distinct:
  "distinct (map fst acc) \<Longrightarrow>
   distinct (map fst (fold (\<lambda>(sub_key, sub_value). AList.update (f sub_key) sub_value) xs acc))"
  by (induction xs arbitrary: acc) (auto simp: distinct_update)

lemma flatten_items_distinct:
  "distinct (map fst acc) \<Longrightarrow> distinct (map fst (flatten_items d acc))"
  by (induction d acc rule: flatten_items.induct) (simp_all add: distinct_update fold_update_distinct)

lemma flatten_dict_distinct: "flatten_dict doc = Inr s \<Longrightarrow> distinct (map fst s)"
  by (cases doc) (auto simp: flatten_dict_def flatten_items_distinct)

lemma override_settings_keys:
  assumes "override_settings fs loc key s = Inr s'"
  shows "map fst s' = map fst s"
proof -
  from assms obtain p where "settings_item s key = Inr p" and
    r: "(case p of PStr path \<Rightarrow>
           (case fs loc path of None \<Rightarrow> Inr s
            | Some doc \<Rightarrow> ebind (flatten_dict doc) (\<lambda>new_settings. Inr (update_settings s new_settings)))
         | _ \<Rightarrow> Inl TypeError) = Inr s'"
    unfolding override_settings_def ebind_Inr_iff by blast
  from r obtain path where p: "p = PStr path" by (cases p) auto
  show ?thesis
  proof (cases "fs loc path")
    case None
    with r p show ?thesis by simp
  next
    case (Some doc)
    with r p obtain n where "s' = update_settings s n"
      by (auto simp: ebind_Inr_iff)
    then show ?thesis by (simp add: update_settings_keys)
  qed
qed

lemma collect_settings_keys:
  assumes "collect_settings fs = Inr s"
  shows "\<exists>doc s0. fs Package ''config/default_settings.yaml'' = Some doc \<and>
           flatten_dict doc = Inr s0 \<and> map fst s = map fst s0"
proof -
  from assms obtain doc where d: "open_yaml fs Package ''config/default_settings.yaml'' = Inr doc"
    and "ebind (flatten_dict doc) (\<lambda>s0.
           ebind (override_settings fs Package [PStr ''package_settings''] s0) (\<lambda>s1.
             override_settings fs Root [PStr ''local_settings''] s1)) = Inr s"
    unfolding collect_settings_def ebind_Inr_iff by blast
  then obtain s0 where f: "flatten_dict doc = Inr s0"
    and "ebind (override_settings fs Package [PStr ''package_settings''] s0) (\<lambda>s1.
             override_settings fs Root [PStr ''local_settings''] s1) = Inr s"
    unfolding ebind_Inr_iff by blast
  then obtain s1 where o1: "override_settings fs Package [PStr ''package_settings''] s0 = Inr s1"
    and o2: "override_settings fs Root [PStr ''local_settings''] s1 = Inr s"
    unfolding ebind_Inr_iff by blast
  from d have "fs Package ''config/default_settings.yaml'' = Some doc"
    by (auto simp: open_yaml_def split: option.splits)
  with f override_settings_keys [OF o1] override_settings_keys [OF o2] show ?thesis by simp
qed

subsection \<open>Type coercion\<close>

lemma length_general_cleaning: "length (general_cleaning col) = length col"
  by (simp add: general_cleaning_def)

lemma getitem_str_key:
  assumes "py_getitem obj (PStr k) = Inr v"
  shows "\<exists>d. obj = PDict d \<and> map_of d (PStr k) = Some v"
  using assms by (cases obj) (auto split: option.splits)

lemma contains_of_getitem:
  assumes "py_getitem obj (PStr k) = Inr v"
  shows "py_contains obj (PStr k) = Inr True"
proof -
  from getitem_str_key [OF assms] obtain d where d: "obj = PDict d" "map_of d (PStr k) = Some v"
    by blast
  then have "PStr k \<in> fst ` set d" by (auto dest: map_of_SomeD intro: rev_image_eqI)
  with d show ?thesis by simp
qed


text \<open>
  C2, as amended. When the declared type is none of the recognized names, the type step
  raises nothing: it returns a column of the length of the input in which every value is
  missing.
\<close>

theorem unrecognized_type_all_missing:
  assumes "py_getitem column_metadata (PStr ''type'') = Inr t"
    and "t \<notin> set [PStr ''string'', PStr ''boolean'', PStr ''unsigned'', PStr ''integer'',
                   PStr ''float'', PStr ''UInt8'', PStr ''UInt16'', PStr ''UInt32'',
                   PStr ''UInt64'', PStr ''category'']"
  shows "apply_type_to_column col column_metadata = Inr (replicate (length col) NA)"
  using assms contains_of_getitem [OF assms(1)]
  by (simp add: apply_type_to_column_def length_general_cleaning)

theorem unrecognized_type_all_missing_witness:
  "apply_type_to_column [Str ''1.5'', Str ''x''] (PDict [(PStr ''new_name'', PStr ''Age''), (PStr ''type'', PStr ''datetime'')])
     = Inr [NA, NA]"
  using unrecognized_type_all_missing [of "PDict [(PStr ''new_name'', PStr ''Age''), (PStr ''type'', PStr ''datetime'')]"
      "PStr ''datetime''" "[Str ''1.5'', Str ''x'']"]
  by simp

text \<open>
  C2 as stated fails: the declared type \<^verbatim>\<open>datetime\<close> is not recognized, and the
  result is no error but an all-missing column.
\<close>

theorem unrecognized_type_counterexample:
  "apply_type_to_column [Str ''1.5'', Str ''x''] (PDict [(PStr ''type'', PStr ''datetime'')]) = Inr [NA, NA]"
  by code_simp

subsection \<open>Numeric text\<close>
















subsection \<open>Categories\<close>

lemma map_cells_id:
  assumes "\<forall>c\<in>set col. f c = Inr c"
  shows "map_cells f col = Inr col"
  using assms by (induction col) simp_all

lemma cast_code: "is_code c \<Longrightarrow> cast_int_cell (- (2 ^ 31)) (2 ^ 31 - 1) c = Inr c"
  by (auto simp: is_code_def)

lemma astype_Int32_codes: "\<forall>c\<in>set col. is_code c \<Longrightarrow> astype_Int32 col = Inr col"
  unfolding astype_Int32_def by (rule map_cells_id) (blast intro: cast_code)

lemma dict_get_int_keys:
  assumes "\<forall>(k, v)\<in>set d. \<exists>j. k = PInt j"
  shows "dict_get d (Num (of_int i)) = map_of d (PInt i)"
  using assms by (induction d) auto

lemma rename_cell_code:
  assumes keys: "\<forall>(k, v)\<in>set d. (\<exists>j. k = PInt j) \<and> (\<exists>l. v = PStr l)"
    and c: "is_code c"
  shows "rename_cell d c = relabelled d c"
proof (cases "c = NA")
  case True
  then show ?thesis by (simp add: rename_cell_def relabelled_def)
next
  case False
  with c obtain i where i: "c = Num (of_int i)" by (auto simp: is_code_def)
  from keys have k: "\<forall>(k, v)\<in>set d. \<exists>j. k = PInt j" by auto
  show ?thesis
  proof (cases "map_of d (PInt i)")
    case None
    then show ?thesis
      using i dict_get_int_keys [OF k, of i] by (simp add: rename_cell_def relabelled_def)
  next
    case (Some v)
    then have "(PInt i, v) \<in> set d" by (rule map_of_SomeD)
    with keys obtain l where "v = PStr l" by auto
    with Some show ?thesis
      using i dict_get_int_keys [OF k, of i] by (simp add: rename_cell_def relabelled_def)
  qed
qed

lemma relabelled_inj:
  assumes keys: "\<forall>(k, v)\<in>set d. (\<exists>j. k = PInt j) \<and> (\<exists>l. v = PStr l)"
    and labels: "distinct (map snd d)"
    and c: "is_code a" "is_code b" "a \<noteq> NA" "b \<noteq> NA"
    and eq: "relabelled d a = relabelled d b"
  shows "a = b"
proof -
  from c obtain i j where ij: "a = Num (of_int i)" "b = Num (of_int j)"
    by (auto simp: is_code_def)
  have inj: "inj_on snd (set d)" using labels by (simp add: distinct_map)
  show ?thesis
  proof (cases "map_of d (PInt i)")
    case None
    then show ?thesis
      using eq ij by (cases "map_of d (PInt j)") (auto simp: relabelled_def split: pyval.splits)
  next
    case (Some v)
    then have vi: "(PInt i, v) \<in> set d" by (rule map_of_SomeD)
    with keys obtain l where l: "v = PStr l" by auto
    show ?thesis
    proof (cases "map_of d (PInt j)")
      case None
      with Some l eq ij show ?thesis by (simp add: relabelled_def)
    next
      case (Some w)
      then have wj: "(PInt j, w) \<in> set d" by (rule map_of_SomeD)
      with keys obtain m where m: "w = PStr m" by auto
      from eq ij \<open>map_of d (PInt i) = Some v\<close> Some l m have "l = m" by (simp add: relabelled_def)
      with vi wj l m inj_onD [OF inj, of "(PInt i, v)" "(PInt j, w)"]
      have "(PInt i, v) = (PInt j, w)" by simp
      with ij show ?thesis by simp
    qed
  qed
qed

lemma rename_categories_codes:
  assumes keys: "\<forall>(k, v)\<in>set d. (\<exists>j. k = PInt j) \<and> (\<exists>l. v = PStr l)"
    and labels: "distinct (map snd d)"
    and codes: "\<forall>c\<in>set col. is_code c"
  shows "rename_categories d col = Inr (map (relabelled d) col)"
proof -
  let ?cats = "categories_of col"
  have cats: "\<forall>c\<in>set ?cats. is_code c \<and> c \<noteq> NA"
    using codes by (auto simp: categories_of_def)
  have lab: "\<forall>c\<in>set ?cats. dict_get d c = None \<or> (\<exists>l. dict_get d c = Some (PStr l))"
  proof
    fix c assume "c \<in> set ?cats"
    with cats obtain i where i: "c = Num (of_int i)" by (auto simp: is_code_def)
    from keys have k: "\<forall>(k, v)\<in>set d. \<exists>j. k = PInt j" by auto
    show "dict_get d c = None \<or> (\<exists>l. dict_get d c = Some (PStr l))"
    proof (cases "map_of d (PInt i)")
      case None
      then show ?thesis using i dict_get_int_keys [OF k, of i] by simp
    next
      case (Some v)
      then have "(PInt i, v) \<in> set d" by (rule map_of_SomeD)
      with keys obtain l where "v = PStr l" by auto
      with Some show ?thesis using i dict_get_int_keys [OF k, of i] by simp
    qed
  qed
  have no_unhashable: "\<not> list_ex (\<lambda>l. case l of Some v \<Rightarrow> \<not> hashable v | None \<Rightarrow> False) (map (dict_get d) ?cats)"
    using lab by (auto simp: list_ex_iff)
  have no_null: "Some PNone \<notin> set (map (dict_get d) ?cats)"
    using lab by auto
  have same_cats: "map (rename_cell d) ?cats = map (relabelled d) ?cats"
    using cats by (simp add: rename_cell_code [OF keys])
  have "inj_on (relabelled d) (set ?cats)"
    using cats by (auto intro!: inj_onI relabelled_inj [OF keys labels])
  moreover have "distinct ?cats" by (simp add: categories_of_def)
  ultimately have dist: "distinct (map (rename_cell d) ?cats)"
    unfolding same_cats by (simp add: distinct_map)
  have same: "map (rename_cell d) col = map (relabelled d) col"
    using codes by (simp add: rename_cell_code [OF keys])
  show ?thesis
    using no_unhashable no_null dist same
    by (simp add: rename_categories_def Let_def)
qed

text \<open>
  C3, as amended. For a column of integer codes in the 32-bit range, with missing cells,
  and a non-empty map from integer codes to pairwise distinct text labels, the type
  \<^verbatim>\<open>category\<close> succeeds: a code of the map becomes its label, a code absent from the
  map is kept as it is, and missing stays missing.
\<close>

theorem category_relabels_codes:
  assumes "py_getitem column_metadata (PStr ''type'') = Inr (PStr ''category'')"
    and "py_getitem column_metadata (PStr ''categories'') = Inr (PDict categories)"
    and "categories \<noteq> []"
    and "\<forall>(k, v)\<in>set categories. (\<exists>j. k = PInt j) \<and> (\<exists>l. v = PStr l)"
    and "distinct (map snd categories)"
    and "\<forall>c\<in>set col. c = NA \<or> (\<exists>i. c = Num (of_int i) \<and> - (2 ^ 31) \<le> i \<and> i < 2 ^ 31)"
  shows "apply_type_to_column col column_metadata =
           Inr (map (\<lambda>c. case c of
                            Num r \<Rightarrow> (case map_of categories (PInt \<lfloor>r\<rfloor>) of
                                        Some (PStr l) \<Rightarrow> Str l
                                      | _ \<Rightarrow> Num r)
                          | _ \<Rightarrow> NA) col)"
proof -
  have codes: "\<forall>c\<in>set col. is_code c" using assms(6) by (simp add: is_code_def)
  then have num: "is_numeric_dtype col"
    by (auto simp: is_numeric_dtype_def list_all_iff is_code_def)
  obtain k v rest where d: "categories = (k, v) # rest" using assms(3) by (cases categories) auto
  with assms(4) have k: "py_number k \<noteq> None" by auto
  have "apply_type_to_column col column_metadata = rename_categories categories col"
    using assms(1,2) contains_of_getitem [OF assms(1)] num astype_Int32_codes [OF codes] k
    by (simp add: apply_type_to_column_def general_cleaning_def apply_category_def d [symmetric])
       (simp add: d)
  also have "\<dots> = Inr (map (relabelled categories) col)"
    by (rule rename_categories_codes [OF assms(4,5) codes])
  finally show ?thesis by (simp add: relabelled_def [abs_def])
qed

theorem category_relabels_codes_witness:
  "apply_type_to_column [Num 2, NA, Num 7, Num 1]
     (PDict [(PStr ''new_name'', PStr ''Area''), (PStr ''type'', PStr ''category''),
             (PStr ''categories'', PDict [(PInt 1, PStr ''Urban''), (PInt 2, PStr ''Rural'')])])
   = Inr [Str ''Rural'', NA, Num 7, Str ''Urban'']"
proof -
  have c: "\<forall>c\<in>set [Num 2, NA, Num 7, Num 1]. c = NA \<or> (\<exists>i. c = Num (of_int i) \<and> - (2 ^ 31) \<le> i \<and> i < 2 ^ 31)"
  proof -
    have "\<exists>i. (2::rat) = of_int i \<and> - (2 ^ 31) \<le> i \<and> i < 2 ^ 31" by (rule exI [of _ 2]) simp
    moreover have "\<exists>i. (7::rat) = of_int i \<and> - (2 ^ 31) \<le> i \<and> i < 2 ^ 31" by (rule exI [of _ 7]) simp
    moreover have "\<exists>i. (1::rat) = of_int i \<and> - (2 ^ 31) \<le> i \<and> i < 2 ^ 31" by (rule exI [of _ 1]) simp
    ultimately show ?thesis by simp
  qed
  show ?thesis
    using category_relabels_codes [of
        "PDict [(PStr ''new_name'', PStr ''Area''), (PStr ''type'', PStr ''category''),
                (PStr ''categories'', PDict [(PInt 1, PStr ''Urban''), (PInt 2, PStr ''Rural'')])]"
        "[(PInt 1, PStr ''Urban''), (PInt 2, PStr ''Rural'')]" "[Num 2, NA, Num 7, Num 1]"] c
    by simp
qed

text \<open>
  C3 as stated fails: the code 9, absent from the map, is not made missing; it stays 9.
\<close>

theorem category_unmapped_counterexample:
  "apply_type_to_column [Num 1, Num 2, Num 9, NA]
     (PDict [(PStr ''type'', PStr ''category''),
             (PStr ''categories'', PDict [(PInt 1, PStr ''Urban''), (PInt 2, PStr ''Rural'')])])
   = Inr [Str ''Urban'', Str ''Rural'', Num 9, NA]"
  by code_simp

subsection \<open>Settings inheritance\<close>

lemma map_of_None_iff_keys: "map_of al k = None \<longleftrightarrow> k \<notin> fst ` set al"
  by (simp add: map_of_eq_None_iff)

lemma update_idem: "AList.update k v (AList.update k v al) = AList.update k v al"
  by (induction al) auto

lemma update_same: "map_of al k = Some v \<Longrightarrow> AList.update k v al = al"
  by (induction al) (auto split: if_splits)

lemma inherit_defaults_dict:
  assumes "\<forall>k\<in>set keys. hashable k \<and> k \<in> fst ` set d"
  shows "\<exists>s'. inherit_defaults (PDict d) keys (PDict s) = Inr (PDict s') \<and>
           (\<forall>k. map_of s' k = (case map_of s k of
                                  Some v \<Rightarrow> Some v
                                | None \<Rightarrow> if k \<in> set keys then map_of d k else None))"
  using assms
proof (induction keys arbitrary: s)
  case Nil
  then show ?case by (auto split: option.splits)
next
  case (Cons key keys)
  then have hk: "hashable key" and kd: "key \<in> fst ` set d"
    and rest: "\<forall>k\<in>set keys. hashable k \<and> k \<in> fst ` set d" by auto
  from kd obtain v where v: "map_of d key = Some v"
    by (cases "map_of d key") (auto simp: map_of_None_iff_keys)
  show ?case
  proof (cases "key \<in> fst ` set s")
    case True
    then obtain w where w: "map_of s key = Some w"
      by (cases "map_of s key") (auto simp: map_of_None_iff_keys)
    from Cons.IH [OF rest, of s] obtain s' where
      s': "inherit_defaults (PDict d) keys (PDict s) = Inr (PDict s')"
      "\<forall>k. map_of s' k = (case map_of s k of Some v \<Rightarrow> Some v
                           | None \<Rightarrow> if k \<in> set keys then map_of d k else None)" by blast
    from True hk s'(1) have "inherit_defaults (PDict d) (key # keys) (PDict s) = Inr (PDict s')"
      by simp
    moreover have "\<forall>k. map_of s' k = (case map_of s k of Some v \<Rightarrow> Some v
                           | None \<Rightarrow> if k \<in> set (key # keys) then map_of d k else None)"
      using s'(2) w by (auto split: option.splits)
    ultimately show ?thesis by blast
  next
    case False
    then have none: "map_of s key = None" by (simp add: map_of_None_iff_keys)
    from Cons.IH [OF rest, of "AList.update key v s"] obtain s' where
      s': "inherit_defaults (PDict d) keys (PDict (AList.update key v s)) = Inr (PDict s')"
      "\<forall>k. map_of s' k = (case map_of (AList.update key v s) k of Some v \<Rightarrow> Some v
                           | None \<Rightarrow> if k \<in> set keys then map_of d k else None)" by blast
    from False hk v s'(1) have "inherit_defaults (PDict d) (key # keys) (PDict s) = Inr (PDict s')"
      by simp
    moreover have "\<forall>k. map_of s' k = (case map_of s k of Some v \<Rightarrow> Some v
                           | None \<Rightarrow> if k \<in> set (key # keys) then map_of d k else None)"
      using s'(2) v none by (auto simp: update_conv' split: option.splits)
    ultimately show ?thesis by blast
  qed
qed

lemma setitem_settings_frame:
  assumes "py_setitem tm (PStr ''settings'') ts = Inr tm'" and "k \<noteq> PStr ''settings''"
  shows "py_getitem tm' k = py_getitem tm k"
  using assms by (cases tm) (auto simp: update_conv')

lemma setitem_settings_get:
  assumes "py_setitem tm (PStr ''settings'') ts = Inr tm'"
  shows "py_getitem tm' (PStr ''settings'') = Inr ts"
  using assms by (cases tm) (auto simp: update_conv')

text \<open>
  C10. When the settings block of the table metadata lacks a key of
  \<^verbatim>\<open>default_table_settings\<close>, the lookup succeeds, and the table metadata after the
  call differs from the one passed in: its \<^verbatim>\<open>settings\<close> entry is the returned
  settings, which hold their own values, and the default value for every key they
  lacked; every other entry of the table metadata is as before.
\<close>

theorem settings_inherited_in_place:
  assumes "py_getitem tables (PStr ''default_table_settings'') = Inr (PDict d)"
    and "py_getitem table_metadata (PStr ''settings'') = Inr (PDict s)"
    and "\<forall>k\<in>fst ` set d. hashable k"
    and "key \<in> fst ` set d" and "key \<notin> fst ` set s"
  shows "\<exists>s' tm'. get_table_settings tables table_metadata = Inr (PDict s', tm') \<and>
           py_getitem tm' (PStr ''settings'') = Inr (PDict s') \<and>
           tm' \<noteq> table_metadata \<and>
           map_of s' key = map_of d key \<and> map_of s' key \<noteq> None \<and>
           (\<forall>k. map_of s' k = (case map_of s k of Some v \<Rightarrow> Some v | None \<Rightarrow> map_of d k)) \<and>
           (\<forall>k. k \<noteq> PStr ''settings'' \<longrightarrow> py_getitem tm' k = py_getitem table_metadata k)"
proof -
  have keys: "\<forall>k\<in>set (map fst d). hashable k \<and> k \<in> fst ` set d" using assms(3) by auto
  from inherit_defaults_dict [OF keys, of s] obtain s' where
    s': "inherit_defaults (PDict d) (map fst d) (PDict s) = Inr (PDict s')"
    and m: "\<forall>k. map_of s' k = (case map_of s k of Some v \<Rightarrow> Some v
                           | None \<Rightarrow> if k \<in> set (map fst d) then map_of d k else None)" by blast
  have m': "\<forall>k. map_of s' k = (case map_of s k of Some v \<Rightarrow> Some v | None \<Rightarrow> map_of d k)"
  proof
    fix k
    have "k \<notin> set (map fst d) \<Longrightarrow> map_of d k = None" by (simp add: map_of_eq_None_iff)
    then show "map_of s' k = (case map_of s k of Some v \<Rightarrow> Some v | None \<Rightarrow> map_of d k)"
      using m [rule_format, of k]
      by (cases "k \<in> set (map fst d)"; cases "map_of s k") simp_all
  qed
  from getitem_str_key [OF assms(2)] obtain t where t: "table_metadata = PDict t" by blast
  define tm' where "tm' = PDict (AList.update (PStr ''settings'') (PDict s') t)"
  have set: "py_setitem table_metadata (PStr ''settings'') (PDict s') = Inr tm'"
    by (simp add: t tm'_def)
  have run: "get_table_settings tables table_metadata = Inr (PDict s', tm')"
    using assms(1,2) s' set by (simp add: get_table_settings_def)
  have none: "map_of s key = None" using assms(5) by (simp add: map_of_None_iff_keys)
  have key: "map_of s' key = map_of d key" using m' none by simp
  have some: "map_of d key \<noteq> None" using assms(4) by (simp add: map_of_None_iff_keys)
  have "s' \<noteq> s" using key some none by auto
  then have "tm' \<noteq> table_metadata"
    using setitem_settings_get [OF set] assms(2) by auto
  with run key some m' setitem_settings_get [OF set] setitem_settings_frame [OF set]
  show ?thesis by auto
qed

theorem settings_inherited_in_place_witness:
  "get_table_settings
     (PDict [(PStr ''default_table_settings'', PDict [(PStr ''missings'', PStr ''error'')])])
     (PDict [(PStr ''settings'', PDict []), (PStr ''columns'', PDict [])])
   \<noteq> Inr (PDict [], PDict [(PStr ''settings'', PDict []), (PStr ''columns'', PDict [])])"
proof -
  let ?T = "PDict [(PStr ''default_table_settings'', PDict [(PStr ''missings'', PStr ''error'')])]"
  let ?tm = "PDict [(PStr ''settings'', PDict []), (PStr ''columns'', PDict [])]"
  have a: "py_getitem ?T (PStr ''default_table_settings'') = Inr (PDict [(PStr ''missings'', PStr ''error'')])"
    by simp
  have b: "py_getitem ?tm (PStr ''settings'') = Inr (PDict [])" by simp
  have c: "\<forall>k\<in>fst ` set [(PStr ''missings'', PStr ''error'')]. hashable k" by simp
  have d: "PStr ''missings'' \<in> fst ` set [(PStr ''missings'', PStr ''error'')]" by simp
  have e: "PStr ''missings'' \<notin> fst ` set ([] :: (pyval \<times> pyval) list)" by simp
  from settings_inherited_in_place [OF a b c d e]
  obtain s' tm' where "get_table_settings ?T ?tm = Inr (PDict s', tm')" and "tm' \<noteq> ?tm"
    by blast
  then show ?thesis by simp
qed

subsection \<open>Column lookup\<close>

lemma get_table_settings_cases:
  assumes "get_table_settings tables tm = Inr (ts, tm')"
  obtains (default) k where
      "py_getitem tables (PStr ''default_table_settings'') = Inr ts"
      "py_getitem tm (PStr ''settings'') = Inl (KeyError k)" "tm' = tm"
  | (inherit) d s keys where
      "py_getitem tables (PStr ''default_table_settings'') = Inr d"
      "py_getitem tm (PStr ''settings'') = Inr s" "py_iter d = Inr keys"
      "inherit_defaults d keys s = Inr ts" "py_setitem tm (PStr ''settings'') ts = Inr tm'"
proof (cases "py_getitem tables (PStr ''default_table_settings'')")
  case (Inl e)
  with assms show ?thesis by (simp add: get_table_settings_def)
next
  case d: (Inr d)
  show ?thesis
  proof (cases "py_getitem tm (PStr ''settings'')")
    case e: (Inl e)
    show ?thesis
    proof (cases e)
      case (KeyError k)
      with assms d e have "ts = d" "tm' = tm" by (simp_all add: get_table_settings_def)
      with d e KeyError show ?thesis by (intro default [of k]) simp_all
    qed (use assms d e in \<open>simp_all add: get_table_settings_def\<close>)
  next
    case s: (Inr s)
    from assms d s have
      "ebind (py_iter d) (\<lambda>keys. ebind (inherit_defaults d keys s) (\<lambda>ts.
         ebind (py_setitem tm (PStr ''settings'') ts) (\<lambda>tm. Inr (ts, tm)))) = Inr (ts, tm')"
      by (simp add: get_table_settings_def)
    then obtain keys where k: "py_iter d = Inr keys"
      and "ebind (inherit_defaults d keys s) (\<lambda>ts.
         ebind (py_setitem tm (PStr ''settings'') ts) (\<lambda>tm. Inr (ts, tm))) = Inr (ts, tm')"
      unfolding ebind_Inr_iff by blast
    then obtain ts0 where i: "inherit_defaults d keys s = Inr ts0"
      and "ebind (py_setitem tm (PStr ''settings'') ts0) (\<lambda>tm. Inr (ts0, tm)) = Inr (ts, tm')"
      unfolding ebind_Inr_iff by blast
    then obtain tm0 where "py_setitem tm (PStr ''settings'') ts0 = Inr tm0" "ts0 = ts" "tm0 = tm'"
      unfolding ebind_Inr_iff by auto
    with d s k i show ?thesis by (intro inherit [of d s keys]) simp_all
  qed
qed

lemma get_table_settings_frame:
  assumes "get_table_settings tables tm = Inr (ts, tm')" and "k \<noteq> PStr ''settings''"
  shows "py_getitem tm' k = py_getitem tm k"
  using assms(1)
proof (cases rule: get_table_settings_cases)
  case (default k)
  then show ?thesis by simp
next
  case (inherit d s keys)
  then show ?thesis using setitem_settings_frame [OF _ assms(2)] by simp
qed

text \<open>
  C6, as amended. For a column listed in the columns mapping, when the settings lookup
  succeeds: the metadata is returned unchanged if it is a mapping or the drop sentinel,
  and the lookup fails with \<^verbatim>\<open>ValueError\<close> otherwise, the error sentinel included.
\<close>

theorem listed_column_metadata:
  assumes "get_table_settings tables table_metadata = Inr (table_settings, tm)"
    and "py_getitem table_metadata (PStr ''columns'') = Inr (PDict columns)"
    and "map_of columns (PStr column_name) = Some column_metadata"
  shows "get_column_metadata tables table_metadata column_name =
           (if is_dict column_metadata \<or> column_metadata = PStr ''drop''
            then Inr (column_metadata, tm)
            else Inl (ValueError (InvalidColumnMetadata column_name)))"
proof -
  have "py_getitem tm (PStr ''columns'') = Inr (PDict columns)"
    using get_table_settings_frame [OF assms(1), of "PStr ''columns''"] assms(2) by simp
  then show ?thesis
    using assms(1,3) by (simp add: get_column_metadata_def)
qed

theorem listed_column_metadata_witness:
  "get_column_metadata
     (PDict [(PStr ''default_table_settings'', PDict [(PStr ''missings'', PStr ''error'')])])
     (PDict [(PStr ''columns'', PDict [(PStr ''A01'', PDict [(PStr ''new_name'', PStr ''Age'')]),
                                       (PStr ''A02'', PStr ''drop''), (PStr ''A03'', PInt 7)])])
     ''A02''
   = Inr (PStr ''drop'',
          PDict [(PStr ''columns'', PDict [(PStr ''A01'', PDict [(PStr ''new_name'', PStr ''Age'')]),
                                       (PStr ''A02'', PStr ''drop''), (PStr ''A03'', PInt 7)])]) \<and>
   get_column_metadata
     (PDict [(PStr ''default_table_settings'', PDict [(PStr ''missings'', PStr ''error'')])])
     (PDict [(PStr ''columns'', PDict [(PStr ''A01'', PDict [(PStr ''new_name'', PStr ''Age'')]),
                                       (PStr ''A02'', PStr ''drop''), (PStr ''A03'', PInt 7)])])
     ''A03''
   = Inl (ValueError (InvalidColumnMetadata ''A03''))"
proof -
  let ?T = "PDict [(PStr ''default_table_settings'', PDict [(PStr ''missings'', PStr ''error'')])]"
  let ?cols = "[(PStr ''A01'', PDict [(PStr ''new_name'', PStr ''Age'')]),
                (PStr ''A02'', PStr ''drop''), (PStr ''A03'', PInt 7)]"
  let ?tm = "PDict [(PStr ''columns'', PDict ?cols)]"
  have s: "get_table_settings ?T ?tm = Inr (PDict [(PStr ''missings'', PStr ''error'')], ?tm)"
    by (simp add: get_table_settings_def)
  have c: "py_getitem ?tm (PStr ''columns'') = Inr (PDict ?cols)" by simp
  have a2: "map_of ?cols (PStr ''A02'') = Some (PStr ''drop'')" by simp
  have a3: "map_of ?cols (PStr ''A03'') = Some (PInt 7)" by simp
  show ?thesis
    using listed_column_metadata [OF s c a2] listed_column_metadata [OF s c a3] by simp
qed

text \<open>
  C6 as stated fails: a listed column whose metadata is the error sentinel is rejected.
\<close>

theorem listed_error_sentinel_counterexample:
  "get_column_metadata
     (PDict [(PStr ''default_table_settings'', PDict [(PStr ''missings'', PStr ''drop'')])])
     (PDict [(PStr ''columns'', PDict [(PStr ''A01'', PStr ''error'')])])
     ''A01''
   = Inl (ValueError (InvalidColumnMetadata ''A01''))"
  by (simp add: get_column_metadata_def get_table_settings_def)

subsection \<open>The table metadata after the first lookup\<close>

lemma inherit_defaults_keys:
  assumes "inherit_defaults dflt keys (PDict s) = Inr ts"
  shows "\<exists>s'. ts = PDict s' \<and> fst ` set s \<subseteq> fst ` set s' \<and> (\<forall>k\<in>set keys. hashable k \<and> k \<in> fst ` set s')"
  using assms
proof (induction keys arbitrary: s)
  case Nil
  then show ?case by auto
next
  case (Cons key keys)
  show ?case
  proof (cases "hashable key")
    case False
    with Cons.prems show ?thesis by simp
  next
    case hk: True
    show ?thesis
    proof (cases "key \<in> fst ` set s")
      case True
      with hk Cons.prems have "inherit_defaults dflt keys (PDict s) = Inr ts" by simp
      from Cons.IH [OF this] obtain s' where
        s': "ts = PDict s'" "fst ` set s \<subseteq> fst ` set s'"
        "\<forall>k\<in>set keys. hashable k \<and> k \<in> fst ` set s'" by blast
      from s'(2) True have "key \<in> fst ` set s'" by blast
      with s' hk show ?thesis by auto
    next
      case False
      with hk Cons.prems obtain v where
        "inherit_defaults dflt keys (PDict (AList.update key v s)) = Inr ts"
        by (cases "py_getitem dflt key") auto
      from Cons.IH [OF this] obtain s' where
        s': "ts = PDict s'" "fst ` set (AList.update key v s) \<subseteq> fst ` set s'"
        "\<forall>k\<in>set keys. hashable k \<and> k \<in> fst ` set s'" by blast
      from s'(2) have "key \<in> fst ` set s'" "fst ` set s \<subseteq> fst ` set s'"
        by (auto simp: dom_update)
      with s' hk show ?thesis by auto
    qed
  qed
qed

lemma inherit_defaults_noop:
  assumes "\<forall>k\<in>set keys. hashable k \<and> k \<in> fst ` set s"
  shows "inherit_defaults dflt keys (PDict s) = Inr (PDict s)"
  using assms by (induction keys) simp_all

lemma setitem_is_dict: "py_setitem obj k v = Inr obj' \<Longrightarrow> is_dict obj' = is_dict obj"
  by (cases obj; cases k) (auto simp: list_assign_def split: option.splits if_splits)

lemma inherit_defaults_is_dict:
  assumes "inherit_defaults dflt keys s = Inr ts"
  shows "is_dict ts = is_dict s"
  using assms
proof (induction keys arbitrary: s)
  case Nil
  then show ?case by simp
next
  case (Cons key keys)
  from Cons.prems obtain present where p: "py_contains s key = Inr present"
    by (cases "py_contains s key") auto
  show ?case
  proof (cases present)
    case True
    with p Cons.prems Cons.IH [of s] show ?thesis by simp
  next
    case False
    with p Cons.prems obtain v where v: "py_getitem dflt key = Inr v"
      by (cases "py_getitem dflt key") auto
    with p False Cons.prems obtain s2 where s2: "py_setitem s key v = Inr s2"
      by (cases "py_setitem s key v") auto
    with p False v Cons.prems have "inherit_defaults dflt keys s2 = Inr ts" by simp
    from Cons.IH [OF this] setitem_is_dict [OF s2] show ?thesis by simp
  qed
qed

lemma get_table_settings_settled:
  assumes run: "get_table_settings tables tm = Inr (ts, tm')"
    and shape: "\<forall>s. py_getitem tm (PStr ''settings'') = Inr s \<longrightarrow> is_dict s"
  shows "get_table_settings tables tm' = Inr (ts, tm')"
  using run
proof (cases rule: get_table_settings_cases)
  case (default k)
  with run show ?thesis by simp
next
  case (inherit d s keys)
  from shape inherit(2) obtain s0 where s0: "s = PDict s0" by (cases s) auto
  from inherit_defaults_keys [OF inherit(4) [unfolded s0]] obtain s' where
    s': "ts = PDict s'" "\<forall>k\<in>set keys. hashable k \<and> k \<in> fst ` set s'" by blast
  from getitem_str_key [OF inherit(2)] obtain t where t: "tm = PDict t" by blast
  from inherit(5) t have tm': "tm' = PDict (AList.update (PStr ''settings'') ts t)" by simp
  have get: "py_getitem tm' (PStr ''settings'') = Inr ts"
    by (rule setitem_settings_get [OF inherit(5)])
  have again: "inherit_defaults d keys ts = Inr ts"
    unfolding s'(1) by (rule inherit_defaults_noop [OF s'(2)])
  have set: "py_setitem tm' (PStr ''settings'') ts = Inr tm'"
    by (simp add: tm' update_idem)
  show ?thesis
    using inherit(1,3) get again set by (simp add: get_table_settings_def)
qed

lemma get_column_metadata_cases:
  assumes "get_column_metadata tables tm name = Inr (md, tm')"
  obtains (listed) ts cd where
      "get_table_settings tables tm = Inr (ts, tm')"
      "py_getitem tm' (PStr ''columns'') = Inr (PDict cd)"
      "map_of cd (PStr name) = Some md" "is_dict md \<or> md = PStr ''drop''"
  | (policy) ts cd where
      "get_table_settings tables tm = Inr (ts, tm')"
      "py_getitem tm' (PStr ''columns'') = Inr (PDict cd)"
      "map_of cd (PStr name) = None" "py_getitem ts (PStr ''missings'') = Inr md"
      "md = PStr ''drop'' \<or> md = PStr ''error''"
proof (cases "get_table_settings tables tm")
  case (Inl e)
  with assms show ?thesis by (simp add: get_column_metadata_def)
next
  case (Inr p)
  obtain ts tm1 where p: "p = (ts, tm1)" by (cases p)
  note s = Inr [unfolded p]
  show ?thesis
  proof (cases "py_getitem tm1 (PStr ''columns'')")
    case (Inl e)
    with assms s show ?thesis by (simp add: get_column_metadata_def)
  next
    case c: (Inr cm)
    show ?thesis
    proof (cases cm)
      case (PDict cd)
      show ?thesis
      proof (cases "map_of cd (PStr name)")
        case None
        with assms s c PDict have
          m: "ebind (py_getitem ts (PStr ''missings'')) (\<lambda>column_metadata.
                if column_metadata \<notin> set [PStr ''drop'', PStr ''error'']
                then Inl (ValueError InvalidMissingTreatment)
                else Inr (column_metadata, tm1)) = Inr (md, tm')"
          by (simp add: get_column_metadata_def)
        then obtain v where v: "py_getitem ts (PStr ''missings'') = Inr v"
          and r: "(if v \<notin> set [PStr ''drop'', PStr ''error'']
                   then Inl (ValueError InvalidMissingTreatment)
                   else Inr (v, tm1)) = Inr (md, tm')"
          unfolding ebind_Inr_iff by blast
        from r have "v = md" "tm1 = tm'" "md = PStr ''drop'' \<or> md = PStr ''error''"
          by (auto split: if_splits)
        with s c PDict None v show ?thesis by (intro policy [of ts cd]) simp_all
      next
        case (Some v)
        with assms s c PDict have "v = md" "tm1 = tm'" "is_dict md \<or> md = PStr ''drop''"
          by (auto simp: get_column_metadata_def split: if_splits)
        with s c PDict Some show ?thesis by (intro listed [of ts cd]) simp_all
      qed
    qed (use assms s c in \<open>simp_all add: get_column_metadata_def\<close>)
  qed
qed

lemma get_column_metadata_state:
  assumes "get_column_metadata tables tm name = Inr (md, tm')"
  shows "\<exists>ts. get_table_settings tables tm = Inr (ts, tm')"
  using assms by (cases rule: get_column_metadata_cases) blast+

lemma get_column_metadata_settled:
  assumes "get_table_settings tables tm = Inr (ts, tm')"
    and "get_table_settings tables tm' = Inr (ts, tm')"
  shows "get_column_metadata tables tm' name = get_column_metadata tables tm name"
  using assms by (simp add: get_column_metadata_def)

lemma clean_columns_settled:
  assumes "get_table_settings tables tm = Inr (ts, tm')"
    and "get_table_settings tables tm' = Inr (ts, tm')"
    and "xs \<noteq> []"
  shows "clean_columns str_upper tables xs acc tm' = clean_columns str_upper tables xs acc tm"
proof -
  from assms(3) obtain name col rest where xs: "xs = (name, col) # rest"
    by (cases xs) auto
  show ?thesis
    unfolding xs clean_columns.simps get_column_metadata_settled [OF assms(1,2)] ..
qed

lemma clean_columns_final_state:
  assumes "get_table_settings tables tm = Inr (ts, tm)"
    and "clean_columns str_upper tables xs acc tm = Inr (cleaned, tm')"
  shows "tm' = tm"
  using assms(2)
proof (induction xs arbitrary: acc)
  case Nil
  then show ?case by simp
next
  case (Cons x xs)
  obtain name col where x: "x = (name, col)" by (cases x)
  from Cons.prems x obtain md tm1 where
    g: "get_column_metadata tables tm (str_upper name) = Inr (md, tm1)"
    by (cases "get_column_metadata tables tm (str_upper name)") auto
  from get_column_metadata_state [OF g] assms(1) have tm1: "tm1 = tm" by simp
  show ?case
  proof (cases "md = PStr ''drop''")
    case True
    with Cons.prems x g tm1 have "clean_columns str_upper tables xs acc tm = Inr (cleaned, tm')" by simp
    then show ?thesis by (rule Cons.IH)
  next
    case False
    with Cons.prems x g tm1 obtain acc' where "clean_columns str_upper tables xs acc' tm = Inr (cleaned, tm')"
      by (auto simp: ebind_Inr_iff split: if_splits)
    then show ?thesis by (rule Cons.IH)
  qed
qed

text \<open>
  C9. A run of \<^verbatim>\<open>open_and_clean_table\<close> reads the registry and the files and changes
  neither; the one thing it changes is the resolved table metadata, whose settings
  inherit the defaults in place. So a second run on an unchanged registry starts from
  the same raw table and either from the same resolved metadata or, if the resolver
  hands out the same object again, from the metadata \<open>tm\<close> that the first run left
  behind. The first case is the first run again; in the second case too the run yields
  the identical cleaned table, and leaves \<open>tm\<close> as it is. The settings block of the
  table metadata, when there is one, is a mapping.
\<close>

theorem cleaning_twice_identical:
  assumes "load_raw_data resolve tables files year table_name = Inr table"
    and "py_getitem tables table_name = Inr versioned"
    and "resolve versioned year = Inr table_metadata"
    and "\<forall>s. py_getitem table_metadata (PStr ''settings'') = Inr s \<longrightarrow> is_dict s"
    and "apply_metadata_to_table str_upper tables table table_metadata = Inr (cleaned_table, tm)"
  shows "open_and_clean_table str_upper resolve tables files year table_name = Inr cleaned_table \<and>
         apply_metadata_to_table str_upper tables table tm = Inr (cleaned_table, tm)"
proof
  show "open_and_clean_table str_upper resolve tables files year table_name = Inr cleaned_table"
    using assms(1,2,3,5) by (simp add: open_and_clean_table_def)
next
  show "apply_metadata_to_table str_upper tables table tm = Inr (cleaned_table, tm)"
  proof (cases table)
    case Nil
    with assms(5) show ?thesis by (simp add: apply_metadata_to_table_def)
  next
    case (Cons x rest)
    obtain name col where x: "x = (name, col)" by (cases x)
    from assms(5) Cons x obtain md tm1 where
      g: "get_column_metadata tables table_metadata (str_upper name) = Inr (md, tm1)"
      by (cases "get_column_metadata tables table_metadata (str_upper name)")
         (auto simp: apply_metadata_to_table_def)
    from get_column_metadata_state [OF g] obtain ts where
      first: "get_table_settings tables table_metadata = Inr (ts, tm1)" by blast
    have settled: "get_table_settings tables tm1 = Inr (ts, tm1)"
      by (rule get_table_settings_settled [OF first assms(4)])
    have ne: "table \<noteq> []" using Cons by simp
    have run1: "clean_columns str_upper tables table [] tm1 = Inr (cleaned_table, tm)"
      using clean_columns_settled [OF first settled ne] assms(5)
      by (simp add: apply_metadata_to_table_def)
    from clean_columns_final_state [OF settled run1] have "tm = tm1" .
    with run1 show ?thesis by (simp add: apply_metadata_to_table_def)
  qed
qed

theorem cleaning_twice_identical_witness:
  "open_and_clean_table upper resolve_static example_tables example_files (PInt 1390) (PStr ''data'')
     = Inr [(PStr ''Age'', [Num 31, Num 47]), (PStr ''Area'', [Str ''Urban'', Str ''Rural''])] \<and>
   (\<exists>tm. apply_metadata_to_table upper example_tables example_raw_table example_table_metadata
            = Inr ([(PStr ''Age'', [Num 31, Num 47]), (PStr ''Area'', [Str ''Urban'', Str ''Rural''])], tm) \<and>
         tm \<noteq> example_table_metadata \<and>
         apply_metadata_to_table upper example_tables example_raw_table tm
            = Inr ([(PStr ''Age'', [Num 31, Num 47]), (PStr ''Area'', [Str ''Urban'', Str ''Rural''])], tm))"
proof -
  let ?out = "[(PStr ''Age'', [Num 31, Num 47]), (PStr ''Area'', [Str ''Urban'', Str ''Rural''])]"
  define tm where "tm = PDict (AList.update (PStr ''settings'') (PDict [(PStr ''missings'', PStr ''error'')])
     [(PStr ''file_code'', PStr ''LFS''),
            (PStr ''settings'', PDict []),
            (PStr ''columns'',
             PDict [(PStr ''AGE'', PDict [(PStr ''new_name'', PStr ''Age''), (PStr ''type'', PStr ''unsigned'')]),
                    (PStr ''NOTE'', PStr ''drop''),
                    (PStr ''AREA'',
                     PDict [(PStr ''new_name'', PStr ''Area''), (PStr ''type'', PStr ''category''),
                            (PStr ''categories'', PDict [(PInt 1, PStr ''Urban''), (PInt 2, PStr ''Rural'')])])])])"
  have a: "load_raw_data resolve_static example_tables example_files (PInt 1390) (PStr ''data'') = Inr example_raw_table"
    by code_simp
  have b: "py_getitem example_tables (PStr ''data'') = Inr example_table_metadata"
    by (simp add: example_tables_def)
  have c: "resolve_static example_table_metadata (PInt 1390) = Inr example_table_metadata"
    by (simp add: resolve_static_def)
  have d: "\<forall>s. py_getitem example_table_metadata (PStr ''settings'') = Inr s \<longrightarrow> is_dict s"
    by (simp add: example_table_metadata_def)
  have e: "apply_metadata_to_table upper example_tables example_raw_table example_table_metadata = Inr (?out, tm)"
    unfolding tm_def by code_simp
  have f: "tm \<noteq> example_table_metadata"
    by (simp add: tm_def example_table_metadata_def)
  from cleaning_twice_identical [OF a b c d e] e f show ?thesis by blast
qed

subsection \<open>Where a cleaned column comes from\<close>

lemma set_update_subset: "set (AList.update k v al) \<subseteq> insert (k, v) (set al)"
  by (induction al) auto

lemma get_column_metadata_columns:
  assumes "get_column_metadata tables tm name = Inr (md, tm')"
  shows "py_getitem tm' (PStr ''columns'') = py_getitem tm (PStr ''columns'')"
proof -
  from get_column_metadata_state [OF assms] obtain ts where
    "get_table_settings tables tm = Inr (ts, tm')" by blast
  then show ?thesis by (rule get_table_settings_frame) simp
qed

lemma clean_columns_step:
  assumes "clean_columns str_upper tables ((name, col) # rest) acc tm = Inr (cleaned, tm')"
  obtains (dropped) tm1 where
      "get_column_metadata tables tm (str_upper name) = Inr (PStr ''drop'', tm1)"
      "clean_columns str_upper tables rest acc tm1 = Inr (cleaned, tm')"
  | (kept) md tm1 c new_name where
      "get_column_metadata tables tm (str_upper name) = Inr (md, tm1)"
      "md \<noteq> PStr ''drop''" "md \<noteq> PStr ''error''"
      "apply_metadata_to_column col md = Inr c"
      "py_getitem md (PStr ''new_name'') = Inr new_name" "hashable new_name"
      "clean_columns str_upper tables rest (AList.update new_name c acc) tm1 = Inr (cleaned, tm')"
proof (cases "get_column_metadata tables tm (str_upper name)")
  case (Inl e)
  with assms show ?thesis by simp
next
  case (Inr p)
  obtain md tm1 where p: "p = (md, tm1)" by (cases p)
  note g = Inr [unfolded p]
  show ?thesis
  proof (cases "md = PStr ''drop''")
    case True
    with assms g show ?thesis by (intro dropped [of tm1]) simp_all
  next
    case nd: False
    show ?thesis
    proof (cases "md = PStr ''error''")
      case True
      with assms g show ?thesis by simp
    next
      case ne: False
      from assms g nd ne have
        "ebind (apply_metadata_to_column col md) (\<lambda>c.
           ebind (py_getitem md (PStr ''new_name'')) (\<lambda>new_name.
             if hashable new_name
             then clean_columns str_upper tables rest (AList.update new_name c acc) tm1
             else Inl TypeError)) = Inr (cleaned, tm')" by simp
      then obtain c where c: "apply_metadata_to_column col md = Inr c"
        and "ebind (py_getitem md (PStr ''new_name'')) (\<lambda>new_name.
             if hashable new_name
             then clean_columns str_upper tables rest (AList.update new_name c acc) tm1
             else Inl TypeError) = Inr (cleaned, tm')"
        unfolding ebind_Inr_iff by blast
      then obtain n where n: "py_getitem md (PStr ''new_name'') = Inr n"
        and "(if hashable n then clean_columns str_upper tables rest (AList.update n c acc) tm1
              else Inl TypeError) = Inr (cleaned, tm')"
        unfolding ebind_Inr_iff by blast
      then have "hashable n" "clean_columns str_upper tables rest (AList.update n c acc) tm1 = Inr (cleaned, tm')"
        by (auto split: if_splits)
      with g nd ne c n show ?thesis by (intro kept [of md tm1 c n]) simp_all
    qed
  qed
qed

lemma clean_columns_origin:
  assumes "clean_columns str_upper tables xs acc tm = Inr (cleaned, tm')" and "(n, c) \<in> set cleaned"
  shows "(n, c) \<in> set acc \<or>
         (\<exists>name col columns md. (name, col) \<in> set xs \<and>
            py_getitem tm (PStr ''columns'') = Inr (PDict columns) \<and>
            map_of columns (PStr (str_upper name)) = Some md \<and> is_dict md \<and>
            py_getitem md (PStr ''new_name'') = Inr n \<and>
            apply_metadata_to_column col md = Inr c)"
  using assms
proof (induction xs arbitrary: acc tm)
  case Nil
  then show ?case by simp
next
  case (Cons x xs)
  obtain name col where x: "x = (name, col)" by (cases x)
  from Cons.prems(1) [unfolded x] show ?case
  proof (cases rule: clean_columns_step)
    case (dropped tm1)
    from Cons.IH [OF dropped(2) Cons.prems(2)] get_column_metadata_columns [OF dropped(1)]
    show ?thesis by auto
  next
    case (kept md tm1 c0 n0)
    note cols = get_column_metadata_columns [OF kept(1)]
    from Cons.IH [OF kept(7) Cons.prems(2)] consider
      (new) "(n, c) \<in> set (AList.update n0 c0 acc)"
      | (later) "\<exists>name col columns md. (name, col) \<in> set xs \<and>
            py_getitem tm1 (PStr ''columns'') = Inr (PDict columns) \<and>
            map_of columns (PStr (str_upper name)) = Some md \<and> is_dict md \<and>
            py_getitem md (PStr ''new_name'') = Inr n \<and>
            apply_metadata_to_column col md = Inr c" by blast
    then show ?thesis
    proof cases
      case new
      with set_update_subset [of n0 c0 acc] have "(n, c) = (n0, c0) \<or> (n, c) \<in> set acc" by auto
      then show ?thesis
      proof
        assume "(n, c) \<in> set acc" then show ?thesis by simp
      next
        assume eq: "(n, c) = (n0, c0)"
        from kept(1) have "\<exists>columns. py_getitem tm1 (PStr ''columns'') = Inr (PDict columns) \<and>
            map_of columns (PStr (str_upper name)) = Some md \<and> is_dict md"
          using kept(2,3) by (cases rule: get_column_metadata_cases) auto
        with cols eq kept(4,5) x show ?thesis by auto
      qed
    next
      case later
      with cols show ?thesis by auto
    qed
  qed
qed

lemma clean_columns_distinct:
  assumes "clean_columns str_upper tables xs acc tm = Inr (cleaned, tm')" and "distinct (map fst acc)"
  shows "distinct (map fst cleaned)"
  using assms
proof (induction xs arbitrary: acc tm)
  case Nil
  then show ?case by simp
next
  case (Cons x xs)
  obtain name col where x: "x = (name, col)" by (cases x)
  from Cons.prems(1) [unfolded x] show ?case
  proof (cases rule: clean_columns_step)
    case (dropped tm1)
    from Cons.IH [OF dropped(2) Cons.prems(2)] show ?thesis .
  next
    case (kept md tm1 c0 n0)
    from Cons.prems(2) have "distinct (map fst (AList.update n0 c0 acc))"
      by (rule distinct_update)
    from Cons.IH [OF kept(7) this] show ?thesis .
  qed
qed

text \<open>
  C8, as amended. The names of the cleaned table are pairwise distinct, and each of its
  columns is the cleaned data of a raw column whose metadata, listed under the raw name
  as \<^verbatim>\<open>str.upper\<close> maps it, is a mapping that carries the name of the cleaned
  column as \<^verbatim>\<open>new_name\<close>. Nothing keeps two raw columns from carrying the same
  \<^verbatim>\<open>new_name\<close>.
\<close>

theorem cleaned_columns_origin:
  assumes "apply_metadata_to_table str_upper tables table table_metadata = Inr (cleaned_table, tm)"
  shows "distinct (map fst cleaned_table) \<and>
         (\<forall>(new_name, c)\<in>set cleaned_table.
            \<exists>name col columns md. (name, col) \<in> set table \<and>
              py_getitem table_metadata (PStr ''columns'') = Inr (PDict columns) \<and>
              map_of columns (PStr (str_upper name)) = Some md \<and> is_dict md \<and>
              py_getitem md (PStr ''new_name'') = Inr new_name \<and>
              apply_metadata_to_column col md = Inr c)"
proof
  show "distinct (map fst cleaned_table)"
    using clean_columns_distinct [of str_upper tables table "[]" table_metadata cleaned_table tm] assms
    by (simp add: apply_metadata_to_table_def)
next
  show "\<forall>(new_name, c)\<in>set cleaned_table.
            \<exists>name col columns md. (name, col) \<in> set table \<and>
              py_getitem table_metadata (PStr ''columns'') = Inr (PDict columns) \<and>
              map_of columns (PStr (str_upper name)) = Some md \<and> is_dict md \<and>
              py_getitem md (PStr ''new_name'') = Inr new_name \<and>
              apply_metadata_to_column col md = Inr c"
  proof (clarify)
    fix n c assume "(n, c) \<in> set cleaned_table"
    with clean_columns_origin [of str_upper tables table "[]" table_metadata cleaned_table tm n c] assms
    show "\<exists>name col columns md. (name, col) \<in> set table \<and>
              py_getitem table_metadata (PStr ''columns'') = Inr (PDict columns) \<and>
              map_of columns (PStr (str_upper name)) = Some md \<and> is_dict md \<and>
              py_getitem md (PStr ''new_name'') = Inr n \<and>
              apply_metadata_to_column col md = Inr c"
      by (simp add: apply_metadata_to_table_def)
  qed
qed

theorem cleaned_columns_origin_witness:
  "\<exists>name col columns md. (name, col) \<in> set example_raw_table \<and>
      py_getitem example_table_metadata (PStr ''columns'') = Inr (PDict columns) \<and>
      map_of columns (PStr (upper name)) = Some md \<and> is_dict md \<and>
      py_getitem md (PStr ''new_name'') = Inr (PStr ''Area'') \<and>
      apply_metadata_to_column col md = Inr [Str ''Urban'', Str ''Rural'']"
proof -
  let ?out = "[(PStr ''Age'', [Num 31, Num 47]), (PStr ''Area'', [Str ''Urban'', Str ''Rural''])]"
  have "map_sum id fst (apply_metadata_to_table upper example_tables example_raw_table example_table_metadata) = Inr ?out"
    by code_simp
  then obtain tm where
    "apply_metadata_to_table upper example_tables example_raw_table example_table_metadata = Inr (?out, tm)"
    by (cases "apply_metadata_to_table upper example_tables example_raw_table example_table_metadata") auto
  from cleaned_columns_origin [OF this] show ?thesis by simp
qed

text \<open>
  C8 as stated fails: the raw columns \<^verbatim>\<open>a\<close> and \<^verbatim>\<open>b\<close> both have the new name
  \<^verbatim>\<open>X\<close>; both write the cleaned column \<^verbatim>\<open>X\<close>, and the second overwrites the
  first.
\<close>

theorem shared_new_name_counterexample:
  "apply_metadata_to_table upper
     (PDict [(PStr ''default_table_settings'', PDict [(PStr ''missings'', PStr ''drop'')])])
     [(''a'', [Num 1]), (''b'', [Num 2])]
     (PDict [(PStr ''columns'', PDict [(PStr ''A'', PDict [(PStr ''new_name'', PStr ''X'')]),
                                       (PStr ''B'', PDict [(PStr ''new_name'', PStr ''X'')])])])
   = Inr ([(PStr ''X'', [Num 2])],
          PDict [(PStr ''columns'', PDict [(PStr ''A'', PDict [(PStr ''new_name'', PStr ''X'')]),
                                           (PStr ''B'', PDict [(PStr ''new_name'', PStr ''X'')])])])"
  by code_simp

subsection \<open>Columns that the metadata does not list\<close>

lemma clean_columns_append:
  "clean_columns str_upper tables (xs @ ys) acc tm =
     ebind (clean_columns str_upper tables xs acc tm) (\<lambda>(acc', tm'). clean_columns str_upper tables ys acc' tm')"
proof (induction xs arbitrary: acc tm)
  case Nil
  then show ?case by simp
next
  case (Cons x xs)
  obtain name col where x: "x = (name, col)" by (cases x)
  show ?case
  proof (cases "get_column_metadata tables tm (str_upper name)")
    case (Inl e)
    then show ?thesis by (simp add: x)
  next
    case (Inr p)
    obtain md tm1 where p: "p = (md, tm1)" by (cases p)
    note g = Inr [unfolded p]
    show ?thesis
    proof (cases "apply_metadata_to_column col md")
      case (Inl e)
      with g show ?thesis by (simp add: x Cons.IH)
    next
      case c: (Inr c)
      show ?thesis
      proof (cases "py_getitem md (PStr ''new_name'')")
        case (Inl e)
        with g c show ?thesis by (simp add: x Cons.IH)
      next
        case (Inr n)
        with g c show ?thesis by (simp add: x Cons.IH)
      qed
    qed
  qed
qed

lemma policy_settled:
  assumes first: "get_table_settings tables tm = Inr (ts, tm1)"
    and pol: "py_getitem ts (PStr ''missings'') = Inr p"
  shows "get_table_settings tables tm1 = Inr (ts, tm1)"
proof (rule get_table_settings_settled [OF first])
  from getitem_str_key [OF pol] have dict: "is_dict ts" by auto
  show "\<forall>s. py_getitem tm (PStr ''settings'') = Inr s \<longrightarrow> is_dict s"
    using first
  proof (cases rule: get_table_settings_cases)
    case (default k)
    then show ?thesis by simp
  next
    case (inherit d s keys)
    from inherit_defaults_is_dict [OF inherit(4)] dict inherit(2) show ?thesis by simp
  qed
qed

lemma unlisted_lookup:
  assumes first: "get_table_settings tables tm = Inr (ts, tm1)"
    and cols: "py_getitem tm (PStr ''columns'') = Inr (PDict columns)"
    and un: "map_of columns (PStr name) = None"
    and pol: "py_getitem ts (PStr ''missings'') = Inr p" "p = PStr ''drop'' \<or> p = PStr ''error''"
    and st: "st = tm \<or> st = tm1"
  shows "get_column_metadata tables st name = Inr (p, tm1)"
proof -
  have settled: "get_table_settings tables tm1 = Inr (ts, tm1)"
    by (rule policy_settled [OF first pol(1)])
  have c1: "py_getitem tm1 (PStr ''columns'') = Inr (PDict columns)"
    using get_table_settings_frame [OF first, of "PStr ''columns''"] cols by simp
  from st first settled have "get_table_settings tables st = Inr (ts, tm1)" by auto
  with c1 un pol show ?thesis by (auto simp: get_column_metadata_def)
qed

lemma prefix_state:
  assumes first: "get_table_settings tables tm = Inr (ts, tm1)"
    and settled: "get_table_settings tables tm1 = Inr (ts, tm1)"
    and run: "clean_columns str_upper tables xs acc tm = Inr (acc', st)"
  shows "st = tm \<or> st = tm1"
proof (cases xs)
  case Nil
  with run show ?thesis by simp
next
  case (Cons x rest)
  then have "xs \<noteq> []" by simp
  from clean_columns_settled [OF first settled this, where acc = acc] run
  have "clean_columns str_upper tables xs acc tm1 = Inr (acc', st)" by simp
  from clean_columns_final_state [OF settled this] show ?thesis by simp
qed

lemma outcome_settled:
  assumes first: "get_table_settings tables tm = Inr (ts, tm1)"
    and settled: "get_table_settings tables tm1 = Inr (ts, tm1)"
  shows "map_sum id fst (clean_columns str_upper tables xs acc tm1) = map_sum id fst (clean_columns str_upper tables xs acc tm)"
proof (cases xs)
  case Nil
  then show ?thesis by simp
next
  case (Cons x rest)
  then have "xs \<noteq> []" by simp
  from clean_columns_settled [OF first settled this, where acc = acc] show ?thesis by simp
qed

text \<open>
  C7, as amended. Take a raw table with a column whose name, as \<^verbatim>\<open>str.upper\<close> maps
  it, the columns mapping does not list, and the settings that the lookup returns. When their
  \<^verbatim>\<open>missings\<close> is \<^verbatim>\<open>drop\<close>, cleaning gives what it gives for the table without
  that column: the same cleaned table or the same error. When it is \<^verbatim>\<open>error\<close>,
  cleaning fails: with the error of an earlier column if there is one, and otherwise
  with the \<^verbatim>\<open>ValueError\<close> whose message carries the raw name of the column, and
  nothing else.
\<close>

theorem unlisted_column_policy:
  assumes "get_table_settings tables table_metadata = Inr (table_settings, tm)"
    and "py_getitem table_metadata (PStr ''columns'') = Inr (PDict columns)"
    and "map_of columns (PStr (str_upper column_name)) = None"
  shows "(py_getitem table_settings (PStr ''missings'') = Inr (PStr ''drop'') \<longrightarrow>
            map_sum id fst (apply_metadata_to_table str_upper tables (before @ (column_name, col) # after) table_metadata) =
            map_sum id fst (apply_metadata_to_table str_upper tables (before @ after) table_metadata)) \<and>
         (py_getitem table_settings (PStr ''missings'') = Inr (PStr ''error'') \<longrightarrow>
            apply_metadata_to_table str_upper tables (before @ (column_name, col) # after) table_metadata =
              (case apply_metadata_to_table str_upper tables before table_metadata of
                 Inl e \<Rightarrow> Inl e
               | Inr r \<Rightarrow> Inl (ValueError (ColumnNotFound column_name))))"
proof (intro conjI impI)
  assume pol: "py_getitem table_settings (PStr ''missings'') = Inr (PStr ''drop'')"
  have settled: "get_table_settings tables tm = Inr (table_settings, tm)"
    by (rule policy_settled [OF assms(1) pol])
  show "map_sum id fst (apply_metadata_to_table str_upper tables (before @ (column_name, col) # after) table_metadata) =
        map_sum id fst (apply_metadata_to_table str_upper tables (before @ after) table_metadata)"
  proof (cases "clean_columns str_upper tables before [] table_metadata")
    case (Inl e)
    then show ?thesis by (simp add: apply_metadata_to_table_def clean_columns_append)
  next
    case (Inr r)
    obtain acc st where r: "r = (acc, st)" by (cases r)
    note run = Inr [unfolded r]
    from prefix_state [OF assms(1) settled run] have st: "st = table_metadata \<or> st = tm" .
    have look: "get_column_metadata tables st (str_upper column_name) = Inr (PStr ''drop'', tm)"
      by (rule unlisted_lookup [OF assms(1,2,3) pol _ st]) simp
    have "map_sum id fst (clean_columns str_upper tables after acc tm) = map_sum id fst (clean_columns str_upper tables after acc st)"
      using st outcome_settled [OF assms(1) settled, where xs = after and acc = acc] by auto
    with run look show ?thesis by (simp add: apply_metadata_to_table_def clean_columns_append)
  qed
next
  assume pol: "py_getitem table_settings (PStr ''missings'') = Inr (PStr ''error'')"
  have settled: "get_table_settings tables tm = Inr (table_settings, tm)"
    by (rule policy_settled [OF assms(1) pol])
  show "apply_metadata_to_table str_upper tables (before @ (column_name, col) # after) table_metadata =
          (case apply_metadata_to_table str_upper tables before table_metadata of
             Inl e \<Rightarrow> Inl e
           | Inr r \<Rightarrow> Inl (ValueError (ColumnNotFound column_name)))"
  proof (cases "clean_columns str_upper tables before [] table_metadata")
    case (Inl e)
    then show ?thesis by (simp add: apply_metadata_to_table_def clean_columns_append)
  next
    case (Inr r)
    obtain acc st where r: "r = (acc, st)" by (cases r)
    note run = Inr [unfolded r]
    from prefix_state [OF assms(1) settled run] have st: "st = table_metadata \<or> st = tm" .
    have look: "get_column_metadata tables st (str_upper column_name) = Inr (PStr ''error'', tm)"
      by (rule unlisted_lookup [OF assms(1,2,3) pol _ st]) simp
    with run show ?thesis by (simp add: apply_metadata_to_table_def clean_columns_append)
  qed
qed

theorem unlisted_column_policy_witness:
  "apply_metadata_to_table upper example_tables [(''age'', [Num 25]), (''extra'', [Num 0])] example_table_metadata
     = Inl (ValueError (ColumnNotFound ''extra'')) \<and>
   map_sum id fst
     (apply_metadata_to_table upper
        (PDict [(PStr ''default_table_settings'', PDict [(PStr ''missings'', PStr ''drop'')])])
        [(''age'', [Num 25]), (''extra'', [Num 0])] example_table_metadata)
     = Inr [(PStr ''Age'', [Num 25])]"
proof -
  let ?D = "PDict [(PStr ''default_table_settings'', PDict [(PStr ''missings'', PStr ''drop'')])]"
  let ?cols = "[(PStr ''AGE'', PDict [(PStr ''new_name'', PStr ''Age''), (PStr ''type'', PStr ''unsigned'')]),
                (PStr ''NOTE'', PStr ''drop''),
                (PStr ''AREA'',
                 PDict [(PStr ''new_name'', PStr ''Area''), (PStr ''type'', PStr ''category''),
                        (PStr ''categories'', PDict [(PInt 1, PStr ''Urban''), (PInt 2, PStr ''Rural'')])])]"
  have c: "py_getitem example_table_metadata (PStr ''columns'') = Inr (PDict ?cols)"
    by (simp add: example_table_metadata_def)
  have u: "map_of ?cols (PStr (upper ''extra'')) = None" by code_simp
  obtain ts1 tm1 where s1: "get_table_settings example_tables example_table_metadata = Inr (ts1, tm1)"
    and p1: "py_getitem ts1 (PStr ''missings'') = Inr (PStr ''error'')"
  proof -
    have "map_sum id fst (get_table_settings example_tables example_table_metadata)
            = Inr (PDict [(PStr ''missings'', PStr ''error'')])" by code_simp
    then show ?thesis
      by (cases "get_table_settings example_tables example_table_metadata") (auto intro: that)
  qed
  obtain ts2 tm2 where s2: "get_table_settings ?D example_table_metadata = Inr (ts2, tm2)"
    and p2: "py_getitem ts2 (PStr ''missings'') = Inr (PStr ''drop'')"
  proof -
    have "map_sum id fst (get_table_settings ?D example_table_metadata)
            = Inr (PDict [(PStr ''missings'', PStr ''drop'')])" by code_simp
    then show ?thesis
      by (cases "get_table_settings ?D example_table_metadata") (auto intro: that)
  qed
  have b: "apply_metadata_to_table upper example_tables [(''age'', [Num 25])] example_table_metadata
           = Inr ([(PStr ''Age'', [Num 25])], tm1)"
  proof -
    have "map_sum id fst (apply_metadata_to_table upper example_tables [(''age'', [Num 25])] example_table_metadata)
            = Inr [(PStr ''Age'', [Num 25])]" by code_simp
    moreover have "\<And>r st. apply_metadata_to_table upper example_tables [(''age'', [Num 25])] example_table_metadata
            = Inr (r, st) \<Longrightarrow> st = tm1"
      using s1 by (auto simp: apply_metadata_to_table_def ebind_Inr_iff
          dest!: get_column_metadata_state split: if_splits)
    ultimately show ?thesis
      by (cases "apply_metadata_to_table upper example_tables [(''age'', [Num 25])] example_table_metadata") auto
  qed
  have d: "map_sum id fst (apply_metadata_to_table upper ?D [(''age'', [Num 25])] example_table_metadata)
            = Inr [(PStr ''Age'', [Num 25])]" by code_simp
  note policy = unlisted_column_policy [where str_upper = upper and column_name = "''extra''"
      and before = "[(''age'', [Num 25])]" and col = "[Num 0]" and after = "[]"]
  from policy [OF s1 c u] p1 b policy [OF s2 c u] p2 d
  show ?thesis by simp
qed

text \<open>
  C7 as stated fails: the error does not name the table. Two tables of different names
  with the same metadata and file fail with one and the same error value.
\<close>

theorem unlisted_column_error_counterexample:
  "open_and_clean_table upper resolve_static example_tables example_files (PInt 1391) (PStr ''data'')
     = Inl (ValueError (ColumnNotFound ''extra'')) \<and>
   open_and_clean_table upper resolve_static example_tables example_files (PInt 1391) (PStr ''other'')
     = Inl (ValueError (ColumnNotFound ''extra''))"
  by code_simp

subsection \<open>The batch\<close>

text \<open>
  C1 fails on the code. For the table \<^verbatim>\<open>data\<close> and the year 1390 the cleaning
  operation succeeds when called as its signature says, while the batch, which passes
  the table name as the year and the year as the table name, looks the year up in the
  registry, ends with \<^verbatim>\<open>KeyError\<close> and writes no file.
\<close>

theorem save_cleaned_tables_swaps_arguments:
  "open_and_clean_table upper resolve_static example_tables example_files (PInt 1390) (PStr ''data'')
     = Inr [(PStr ''Age'', [Num 31, Num 47]), (PStr ''Area'', [Str ''Urban'', Str ''Rural''])] \<and>
   save_cleaned_tables upper resolve_static example_tables example_files (Some [PStr ''data'']) [PInt 1390] []
     = (Some (KeyError (PInt 1390)), [])"
  by code_simp

end
